(* ===== verification/Prelude.thy ===== *)
theory Prelude
  imports Complex_Main "HOL-Library.Sublist"
begin

text \<open>
  Shared vocabulary of the development: the types that stand for JavaScript values,
  the collections of facts the component theories feed to the simplifier, and generic
  lemmas on lists that several components use (sums over a list updated at one index,
  the \<open>reduce\<close> fold as a sum, counting with \<open>filter\<close>).
\<close>

type_synonym js_string = string
  \<comment> \<open>a JavaScript string, as its sequence of code units (code units below 256 only)\<close>

type_synonym js_int = int
  \<comment> \<open>a JavaScript number that holds an integer in the safe range (below 2 to the 53)\<close>

named_theorems store_simps "equations of the stock and image handlers"
named_theorems js_simps "evaluation rules of the modelled JavaScript built-ins"

subsection \<open>Lists updated at one index\<close>

lemma sum_list_map_update [simp]:
  fixes f :: "'a \<Rightarrow> 'b::ab_group_add"
  assumes "i < length xs"
  shows "sum_list (map f (xs[i := x])) = sum_list (map f xs) - f (xs ! i) + f x"
  using assms
proof (induction xs arbitrary: i)
  case Nil
  then show ?case by simp
next
  case (Cons y ys)
  then show ?case by (cases i) (simp_all add: algebra_simps)
qed

lemma length_filter_update:
  assumes "i < length xs"
  shows "length (filter P (xs[i := x])) + (if P (xs ! i) then 1 else 0) =
    length (filter P xs) + (if P x then 1 else 0)"
  using assms
proof (induction xs arbitrary: i)
  case Nil
  then show ?case by simp
next
  case (Cons y ys)
  then show ?case by (cases i) auto
qed

lemma nth_update_other [simp]:
  "j \<noteq> i \<Longrightarrow> (xs[i := x]) ! j = xs ! j"
  by simp

lemma set_update_cases:
  "y \<in> set (xs[i := x]) \<Longrightarrow> y = x \<or> y \<in> set xs"
  using set_update_subset_insert by fastforce

lemma list_all_update [intro]:
  "list_all P xs \<Longrightarrow> P x \<Longrightarrow> list_all P (xs[i := x])"
  by (auto simp: list_all_iff dest: set_update_cases)

lemma those_map_Some:
  "(\<And>x. x \<in> set xs \<Longrightarrow> f x = Some x) \<Longrightarrow> those (map f xs) = Some xs"
  by (induction xs) auto

subsection \<open>The reduce fold of an array\<close>

lemma foldl_add_sum_list:
  fixes f :: "'a \<Rightarrow> 'b::comm_monoid_add"
  shows "foldl (\<lambda>s x. s + f x) a xs = a + sum_list (map f xs)"
  by (induction xs arbitrary: a) (simp_all add: add.assoc)

end
