(* ===== verification/Item.thy ===== *)
theory Item
  imports Prelude
begin

text \<open>
  The data of \<open>src/App.jsx\<close>: an inventory record is a JavaScript object with the
  nineteen fields of the seed literal (lines 16--35), including its \<open>history\<close>
  array of ledger entries (pushed at lines 109 and 119) and its \<open>image\<close>
  (\<open>null\<close> or a data URL, line 158). The spread at line 79 extends every seed object
  with \<open>initialQty\<close>, which is exactly a record extension here: \<open>item\<close> extends
  \<open>raw_item\<close>. The ledger view (signed sum of the entries) and the record invariant
  live here too.
\<close>

datatype txn_type = IN | OUT

record ledger_entry =
  type :: txn_type
  qty :: js_int
  date :: js_string

record raw_item =
  materialCode :: js_string
  materialName :: js_string
  "specification" :: js_string
  warehouseName :: js_string
  lotNo :: js_string
  stockUnit :: js_string
  inventoryQty :: js_int
  inventoryStatus :: js_string
  inventoryOrg :: js_string
  typeOfOwner :: js_string
  ownerName :: js_string
  customerPN :: js_string
  brand :: js_string
  gram :: js_string
  materialGrouping :: js_string
  customerEndPN :: js_string
  masterDataProperty :: js_string
  history :: "ledger_entry list"
  image :: "js_string option"

record item = raw_item +
  initialQty :: js_int

subsection \<open>The seed data set\<close>

definition seed_raw_items :: "raw_item list" where
  "seed_raw_items =
    [\<lparr>materialCode = ''9.04.009449'',
      materialName = ''EZC250H3200 MCCB 3P 200A36kA Schneider'',
      specification = ''EZC250H3200 MCCB 3P 200A36kA Schneider'',
      warehouseName = ''Pulp Tray (Consumable Material)'',
      lotNo = '''', stockUnit = ''unit'', inventoryQty = 1,
      inventoryStatus = ''Available'', inventoryOrg = ''PT GAOYI PACKAGING INDONESIA'',
      typeOfOwner = ''Business Org'', ownerName = ''PT GAOYI PACKAGING INDONESIA'',
      customerPN = '''', brand = '''', gram = '''',
      materialGrouping = ''Electrical appliances'', customerEndPN = '''',
      masterDataProperty = '''', history = [], image = None\<rparr>,
     \<lparr>materialCode = ''9.07.011003'',
      materialName = ''Airtac Solenoid Valve 4V21008A AC220V'',
      specification = ''Airtac Solenoid Valve 4V21008A AC220V'',
      warehouseName = ''Pulp Tray (Consumable Material)'',
      lotNo = '''', stockUnit = ''Pcs'', inventoryQty = 3,
      inventoryStatus = ''Available'', inventoryOrg = ''PT GAOYI PACKAGING INDONESIA'',
      typeOfOwner = ''Business Org'', ownerName = ''PT GAOYI PACKAGING INDONESIA'',
      customerPN = '''', brand = '''', gram = '''',
      materialGrouping = ''Accessories'', customerEndPN = '''',
      masterDataProperty = '''', history = [], image = None\<rparr>,
     \<lparr>materialCode = ''1465.Z.0021'',
      materialName = ''INNER CARTON FILLER MATERIAL'',
      specification = ''320'' @ [CHR 0xB1] @ ''3mm(L)*180'' @ [CHR 0xB1] @ ''2mm(W)*32''
        @ [CHR 0xB1] @ ''2mm(H); 86g'' @ [CHR 0xB1] @ ''10%'',
      warehouseName = ''Pulp Tray (Finished Product)'',
      lotNo = '''', stockUnit = ''Pcs'', inventoryQty = 3000,
      inventoryStatus = ''Available'', inventoryOrg = ''PT GAOYI PACKAGING INDONESIA'',
      typeOfOwner = ''Business Org'', ownerName = ''PT GAOYI PACKAGING INDONESIA'',
      customerPN = ''SLPRT-100292700'', brand = '''', gram = '''',
      materialGrouping = ''Pulp'', customerEndPN = ''H23-361 A04 R04'',
      masterDataProperty = '''', history = [], image = None\<rparr>]"

text \<open>\<open>item => ({ ...item, initialQty: item.inventoryQty })\<close> (line 79).\<close>

definition with_initialQty :: "raw_item \<Rightarrow> item" where
  "with_initialQty r = raw_item.extend r (item.fields (inventoryQty r))"

definition initialData :: "item list" where
  "initialData = map with_initialQty seed_raw_items"

subsection \<open>The ledger of a record\<close>

text \<open>
  The signed movement of one entry (\<open>IN\<close> adds, \<open>OUT\<close> removes) and of a whole
  history. These are not functions of the source: they are the specification's reading
  of the \<open>history\<close> array, against which the handlers are checked.
\<close>

primrec entry_sign :: "txn_type \<Rightarrow> int" where
  "entry_sign IN = 1"
| "entry_sign OUT = -1"

definition entry_delta :: "ledger_entry \<Rightarrow> int" where
  "entry_delta e = entry_sign (type e) * qty e"

definition ledger_sum :: "ledger_entry list \<Rightarrow> int" where
  "ledger_sum h = sum_list (map entry_delta h)"

definition ledger_consistent :: "item \<Rightarrow> bool" where
  "ledger_consistent it \<longleftrightarrow> inventoryQty it = initialQty it + ledger_sum (history it)"

definition item_ok :: "item \<Rightarrow> bool" where
  "item_ok it \<longleftrightarrow>
     0 \<le> inventoryQty it \<and> ledger_consistent it \<and> list_all (\<lambda>e. 0 < qty e) (history it)"

definition store_ok :: "item list \<Rightarrow> bool" where
  "store_ok xs \<longleftrightarrow> list_all item_ok xs"

lemma ledger_sum_Nil [simp]: "ledger_sum [] = 0"
  by (simp add: ledger_sum_def)

lemma ledger_sum_snoc [simp]: "ledger_sum (h @ [e]) = ledger_sum h + entry_delta e"
  by (simp add: ledger_sum_def)

lemma entry_delta_simps [simp]:
  "entry_delta \<lparr>type = IN, qty = q, date = d\<rparr> = q"
  "entry_delta \<lparr>type = OUT, qty = q, date = d\<rparr> = - q"
  by (simp_all add: entry_delta_def)

lemma with_initialQty_sel [simp]:
  "initialQty (with_initialQty r) = inventoryQty r"
  "inventoryQty (with_initialQty r) = inventoryQty r"
  "history (with_initialQty r) = history r"
  "materialCode (with_initialQty r) = materialCode r"
  "materialName (with_initialQty r) = materialName r"
  "warehouseName (with_initialQty r) = warehouseName r"
  "materialGrouping (with_initialQty r) = materialGrouping r"
  "image (with_initialQty r) = image r"
  by (simp_all add: with_initialQty_def raw_item.defs item.defs)

lemma item_ok_with_initialQty:
  "history r = [] \<Longrightarrow> 0 \<le> inventoryQty r \<Longrightarrow> item_ok (with_initialQty r)"
  by (simp add: item_ok_def ledger_consistent_def)

end
