(* ===== verification/JsLib.thy ===== *)
theory JsLib
  imports Prelude
begin

text \<open>
  The JavaScript built-ins that \<open>src/App.jsx\<close> calls and whose behaviour its claims
  depend on, each modelled from the ECMAScript definition:
  \<^item> \<open>parseInt(s)\<close> (lines 105 and 114): skip leading white space, an optional sign,
    an optional \<open>0x\<close>/\<open>0X\<close> prefix that switches to radix 16, then the longest
    prefix of digits of the radix; \<open>NaN\<close> (here \<open>None\<close>) when that prefix is empty.
    \<open>Number::toString\<close> of an integer is \<open>js_number_to_string\<close>, and the two
    round-trip, also when text follows the number (which \<open>parseInt\<close> ignores);
  \<^item> \<open>String.prototype.toLowerCase\<close> and \<open>includes\<close> (lines 97--98): the
    search of the filter; \<open>includes\<close> is shown to be the library's \<open>sublist\<close>;
  \<^item> \<open>[...new Set(xs)]\<close> (lines 88--89): distinct values in first-seen order, shown
    equal to \<open>rev (remdups (rev xs))\<close>.
  Strings are sequences of UTF-16 code units restricted to those below 256 (the type
  \<open>char\<close>); numbers are integers, which is exact while they stay below 2 to the 53.
\<close>

subsection \<open>Definitions\<close>

definition js_is_space :: "char \<Rightarrow> bool" where
  "js_is_space c \<longleftrightarrow>
     c \<in> set [CHR 0x09, CHR 0x0A, CHR 0x0B, CHR 0x0C, CHR 0x0D, CHR 0x20, CHR 0xA0]"

definition digit_value :: "char \<Rightarrow> nat" where
  "digit_value c =
     (let n = of_char c :: nat in
      if 48 \<le> n \<and> n \<le> 57 then n - 48
      else if 97 \<le> n \<and> n \<le> 122 then n - 87
      else if 65 \<le> n \<and> n \<le> 90 then n - 55
      else 36)"

definition digits_to_nat :: "nat \<Rightarrow> js_string \<Rightarrow> nat" where
  "digits_to_nat r ds = foldl (\<lambda>acc c. acc * r + digit_value c) 0 ds"

definition strip_sign :: "js_string \<Rightarrow> int \<times> js_string" where
  "strip_sign s =
     (case s of
       [] \<Rightarrow> (1, [])
     | c # r \<Rightarrow>
         if c = CHR ''-'' then (-1, r)
         else if c = CHR ''+'' then (1, r)
         else (1, s))"

definition strip_radix_prefix :: "js_string \<Rightarrow> nat \<times> js_string" where
  "strip_radix_prefix s =
     (if take 2 s = ''0x'' \<or> take 2 s = ''0X'' then (16, drop 2 s) else (10, s))"

definition js_parseInt :: "js_string \<Rightarrow> js_int option" where
  "js_parseInt input =
     (let (sign, s) = strip_sign (dropWhile js_is_space input);
          (r, s) = strip_radix_prefix s;
          z = takeWhile (\<lambda>c. digit_value c < r) s
      in if z = [] then None else Some (sign * int (digits_to_nat r z)))"

fun nat_to_digits :: "nat \<Rightarrow> js_string" where
  "nat_to_digits n =
     (if n < 10 then [char_of (48 + n)]
      else nat_to_digits (n div 10) @ [char_of (48 + n mod 10)])"

definition js_number_to_string :: "js_int \<Rightarrow> js_string" where
  "js_number_to_string i =
     (if i < 0 then CHR ''-'' # nat_to_digits (nat (- i)) else nat_to_digits (nat i))"

definition is_decimal_char :: "char \<Rightarrow> bool" where
  "is_decimal_char c \<longleftrightarrow> (\<exists>d::nat < 10. c = char_of (48 + d))"

definition ends_number :: "js_int \<Rightarrow> js_string \<Rightarrow> bool" where
  "ends_number i rest \<longleftrightarrow>
     (case rest of
       [] \<Rightarrow> True
     | c # _ \<Rightarrow> \<not> digit_value c < 10 \<and> (i = 0 \<longrightarrow> c \<noteq> CHR ''x'' \<and> c \<noteq> CHR ''X''))"

definition js_lower_char :: "char \<Rightarrow> char" where
  "js_lower_char c =
     (let n = of_char c :: nat in
      if (65 \<le> n \<and> n \<le> 90) \<or> (192 \<le> n \<and> n \<le> 222 \<and> n \<noteq> 215)
      then char_of (n + 32) else c)"

definition js_toLowerCase :: "js_string \<Rightarrow> js_string" where
  "js_toLowerCase s = map js_lower_char s"

fun starts_with :: "js_string \<Rightarrow> js_string \<Rightarrow> bool" where
  "starts_with s [] = True"
| "starts_with [] (c # t) = False"
| "starts_with (d # s) (c # t) = (d = c \<and> starts_with s t)"

fun js_includes :: "js_string \<Rightarrow> js_string \<Rightarrow> bool" where
  "js_includes [] t = (t = [])"
| "js_includes (c # s) t = (starts_with (c # s) t \<or> js_includes s t)"

definition js_set_add :: "'a list \<Rightarrow> 'a \<Rightarrow> 'a list" where
  "js_set_add s x = (if x \<in> set s then s else s @ [x])"

definition js_Set_spread :: "'a list \<Rightarrow> 'a list" where
  "js_Set_spread xs = foldl js_set_add [] xs"

text \<open>\<open>x * 0.1\<close> on a safe integer \<open>x\<close>, read exactly. The double nearest to
  0.1 is \<open>(2^55 + 2) / (10 * 2^55)\<close>, so for \<open>x = 10k\<close> the exact product is
  \<open>k + k / 2^54\<close>, within half an ulp of the integer \<open>k\<close>, and rounds to \<open>k\<close>; for
  other \<open>x\<close> the product lies strictly between two integers and rounding keeps it
  there. Hence every comparison with an integer and every \<open>Math.ceil\<close> of the double
  product agrees with the exact rational one used here.\<close>

definition js_mul_tenth :: "js_int \<Rightarrow> rat" where
  "js_mul_tenth x = rat_of_int x * (1 / 10)"

subsection \<open>Properties\<close>

declare nat_to_digits.simps [simp del]

declare js_parseInt_def [js_simps] strip_sign_def [js_simps] strip_radix_prefix_def [js_simps]
  js_is_space_def [js_simps] digit_value_def [js_simps] digits_to_nat_def [js_simps]

lemma of_char_digit: "d < 10 \<Longrightarrow> of_char (char_of (48 + d)) = (48 + d :: nat)"
  by (simp add: of_char_of)

lemma digit_value_digit [simp]: "d < 10 \<Longrightarrow> digit_value (char_of (48 + d)) = d"
  by (simp add: digit_value_def of_char_digit)

lemma is_decimal_char_of: "(d::nat) < 10 \<Longrightarrow> is_decimal_char (char_of (48 + d))"
  unfolding is_decimal_char_def by blast

lemma nat_to_digits_decimal: "c \<in> set (nat_to_digits n) \<Longrightarrow> is_decimal_char c"
proof (induction n rule: nat_to_digits.induct)
  case (1 n)
  then show ?case
    by (cases "n < 10") (auto simp: nat_to_digits.simps [of n] intro: is_decimal_char_of)
qed

lemma decimal_char_facts:
  assumes "is_decimal_char c"
  shows "digit_value c < 10" "\<not> js_is_space c" "c \<noteq> CHR ''-''" "c \<noteq> CHR ''+''"
    "c \<noteq> CHR ''x''" "c \<noteq> CHR ''X''"
proof -
  from assms obtain d :: nat where d: "d < 10" "c = char_of (48 + d)"
    by (auto simp: is_decimal_char_def)
  then have oc: "of_char c = (48 + d :: nat)" by (simp add: of_char_digit)
  show "digit_value c < 10" using d by simp
  have neq: "c \<noteq> c'" if "(of_char c' :: nat) < 48" for c'
    using that oc by auto
  show "c \<noteq> CHR ''-''" "c \<noteq> CHR ''+''" by (rule neq, simp)+
  have neq': "c \<noteq> c'" if "57 < (of_char c' :: nat)" for c'
    using that oc d by auto
  show "c \<noteq> CHR ''x''" "c \<noteq> CHR ''X''" by (rule neq', simp)+
  have "(of_char c :: nat) \<notin> of_char ` set [CHR 0x09, CHR 0x0A, CHR 0x0B, CHR 0x0C, CHR 0x0D,
      CHR 0x20, CHR 0xA0]"
    using oc d by simp
  then show "\<not> js_is_space c" unfolding js_is_space_def by blast
qed

lemma nat_to_digits_ne [simp]: "nat_to_digits n \<noteq> []"
  by (subst nat_to_digits.simps) simp

lemma hd_nat_to_digits_zero: "hd (nat_to_digits n) = CHR ''0'' \<Longrightarrow> n = 0"
proof (induction n rule: nat_to_digits.induct)
  case (1 n)
  show ?case
  proof (cases "n < 10")
    case True
    with "1.prems" have "of_char (char_of (48 + n)) = (of_char (CHR ''0'') :: nat)"
      by (simp add: nat_to_digits.simps [of n])
    with True show ?thesis by (simp add: of_char_digit)
  next
    case False
    with "1.prems" have "hd (nat_to_digits (n div 10)) = CHR ''0''"
      by (simp add: nat_to_digits.simps [of n])
    with "1.IH" False have "n div 10 = 0" by simp
    with False show ?thesis by simp
  qed
qed

lemma digits_to_nat_snoc [simp]:
  "digits_to_nat r (xs @ [c]) = digits_to_nat r xs * r + digit_value c"
  by (simp add: digits_to_nat_def)

lemma digits_to_nat_nat_to_digits [simp]: "digits_to_nat 10 (nat_to_digits n) = n"
proof (induction n rule: nat_to_digits.induct)
  case (1 n)
  then show ?case
    by (cases "n < 10") (simp_all add: nat_to_digits.simps [of n] digits_to_nat_def)
qed

lemma take_two_eq: "take 2 s = [a, b] \<longleftrightarrow> (\<exists>t. s = a # b # t)"
  by (cases s rule: remdups_adj.cases) auto

lemma nat_to_digits_zero: "nat_to_digits 0 = [char_of (48::nat)]"
  by (simp add: nat_to_digits.simps)

lemma js_parseInt_number_prefix:
  assumes "ends_number i rest"
  shows "js_parseInt (js_number_to_string i @ rest) = Some i"
proof -
  define n where "n = nat \<bar>i\<bar>"
  define ds where "ds = nat_to_digits n"
  have dec: "is_decimal_char c" if "c \<in> set ds" for c
    using that nat_to_digits_decimal ds_def by blast
  have rest: "takeWhile (\<lambda>c. digit_value c < 10) rest = []"
    using assms by (cases rest) (auto simp: ends_number_def)
  have tw: "takeWhile (\<lambda>c. digit_value c < 10) (ds @ rest) = ds"
    using dec decimal_char_facts(1) rest by (simp add: takeWhile_append2)
  have no_hex: "ds @ rest \<noteq> CHR ''0'' # ch # t" if "ch = CHR ''x'' \<or> ch = CHR ''X''" for ch t
  proof
    assume eq: "ds @ rest = CHR ''0'' # ch # t"
    obtain c ds' where ds: "ds = c # ds'" using nat_to_digits_ne [of n] unfolding ds_def by (meson neq_Nil_conv)
    with eq have "hd ds = CHR ''0''" by simp
    then have "n = 0" using hd_nat_to_digits_zero ds_def by blast
    then have "ds = [char_of (48::nat)]" and "i = 0" using ds_def n_def nat_to_digits_zero by auto
    with eq that assms show False by (auto simp: ends_number_def)
  qed
  have x: "take 2 (ds @ rest) \<noteq> [CHR ''0'', CHR ''x'']"
    unfolding take_two_eq using no_hex by blast
  have X: "take 2 (ds @ rest) \<noteq> [CHR ''0'', CHR ''X'']"
    unfolding take_two_eq using no_hex by blast
  have rp: "strip_radix_prefix (ds @ rest) = (10, ds @ rest)"
    using x X by (simp add: strip_radix_prefix_def)
  obtain c ds' where ds: "ds = c # ds'" using nat_to_digits_ne [of n] unfolding ds_def by (meson neq_Nil_conv)
  then have c: "is_decimal_char c" using dec by simp
  have js: "js_number_to_string i = (if i < 0 then CHR ''-'' # ds else ds)"
    by (simp add: js_number_to_string_def ds_def n_def)
  have "strip_sign (dropWhile js_is_space (js_number_to_string i @ rest)) =
      (if i < 0 then -1 else 1, ds @ rest)"
    using decimal_char_facts [OF c] ds
    by (simp add: js strip_sign_def js_is_space_def)
  then show ?thesis
    using rp tw by (simp add: js_parseInt_def ds_def n_def)
qed

lemma js_lower_char_idem [simp]: "js_lower_char (js_lower_char c) = js_lower_char c"
proof -
  have lt: "(of_char c :: nat) < 256" by (rule nat_of_char_less_256)
  show ?thesis
    using lt by (auto simp: js_lower_char_def Let_def of_char_of)
qed

lemma js_toLowerCase_idem [simp]: "js_toLowerCase (js_toLowerCase s) = js_toLowerCase s"
  by (simp add: js_toLowerCase_def comp_def)

lemma starts_with_prefix: "starts_with s t \<longleftrightarrow> prefix t s"
  by (induction s t rule: starts_with.induct) auto

lemma js_includes_sublist: "js_includes s t \<longleftrightarrow> sublist t s"
  by (induction s) (auto simp: starts_with_prefix sublist_Cons_right)

lemma js_includes_Nil [simp]: "js_includes s []"
  by (cases s) simp_all

lemma remdups_append_dup: "x \<in> set ys \<Longrightarrow> remdups (zs @ x # ys) = remdups (zs @ ys)"
  by (induction zs) auto

lemma foldl_js_set_add:
  "distinct acc \<Longrightarrow> foldl js_set_add acc xs = rev (remdups (rev (acc @ xs)))"
proof (induction xs arbitrary: acc)
  case Nil
  then show ?case by (simp add: distinct_remdups_id)
next
  case (Cons x xs)
  show ?case
  proof (cases "x \<in> set acc")
    case True
    with Cons show ?thesis
      by (simp add: js_set_add_def remdups_append_dup)
  next
    case False
    with Cons.prems have "distinct (acc @ [x])" by simp
    with Cons.IH False show ?thesis by (simp add: js_set_add_def)
  qed
qed

lemma js_Set_spread_remdups: "js_Set_spread xs = rev (remdups (rev xs))"
  using foldl_js_set_add [of "[]" xs] by (simp add: js_Set_spread_def)

lemma less_mul_tenth_iff [simp]: "rat_of_int q < js_mul_tenth x \<longleftrightarrow> 10 * q < x"
proof -
  have "rat_of_int q < js_mul_tenth x \<longleftrightarrow> rat_of_int (10 * q) < rat_of_int x"
    unfolding js_mul_tenth_def by (simp add: field_simps)
  also have "\<dots> \<longleftrightarrow> 10 * q < x" by (rule of_int_less_iff)
  finally show ?thesis .
qed

lemma ceiling_mul_tenth: "\<lceil>js_mul_tenth x\<rceil> = (x + 9) div 10"
proof (rule ceiling_unique)
  have "10 * ((x + 9) div 10) \<ge> x" and "10 * ((x + 9) div 10) < x + 10" by linarith+
  then have a: "rat_of_int x \<le> rat_of_int (10 * ((x + 9) div 10))"
    and b: "rat_of_int (10 * ((x + 9) div 10)) < rat_of_int (x + 10)"
    by (simp_all only: of_int_le_iff of_int_less_iff)
  from a show "js_mul_tenth x \<le> rat_of_int ((x + 9) div 10)"
    by (simp add: js_mul_tenth_def field_simps)
  from b show "rat_of_int ((x + 9) div 10) - 1 < js_mul_tenth x"
    by (simp add: js_mul_tenth_def field_simps)
qed

lemma less_mul_tenth_ceiling: "rat_of_int q < js_mul_tenth x \<longleftrightarrow> q < \<lceil>js_mul_tenth x\<rceil>"
  by (simp add: ceiling_mul_tenth) linarith

end
