(* ===== verification/Store.thy ===== *)
theory Store
  imports Item JsLib
begin

text \<open>
  The three handlers of \<open>src/App.jsx\<close> that change the inventory:
  \<open>handleStockIn\<close> (lines 104--111), \<open>handleStockOut\<close> (lines 113--121) and
  \<open>handleImageUpload\<close> (lines 152--162). Each takes the current \<open>inventoryData\<close>,
  the array index of the record, and what the environment supplies (the answer to the
  \<open>prompt\<close>, \<open>null\<close> when cancelled, and the time stamp of
  \<open>new Date().toLocaleString()\<close>; or the data URL the \<open>FileReader\<close> produced), and
  returns either the alert, exception or plain \<open>return\<close> that ends the handler before
  \<open>setInventoryData\<close> (\<open>Inl\<close>), or the array passed to \<open>setInventoryData\<close>
  (\<open>Inr\<close>). A handler that ends early leaves the state as it was.
\<close>

datatype store_error = InvalidQuantity | InsufficientStock | TypeError | NoFileSelected

primrec alert_text :: "store_error \<Rightarrow> js_string option" where
  "alert_text InvalidQuantity = Some ''Masukkan jumlah valid!''"
| "alert_text InsufficientStock = Some ''Stok tidak cukup!''"
| "alert_text TypeError = None"
| "alert_text NoFileSelected = None"

text \<open>\<open>prompt\<close> returns the typed text or \<open>null\<close>; \<open>parseInt\<close> first converts its
  argument with \<open>ToString\<close>, so a cancelled prompt is parsed as \<open>"null"\<close>.\<close>

definition js_ToString :: "js_string option \<Rightarrow> js_string" where
  "js_ToString v = (case v of None \<Rightarrow> ''null'' | Some s \<Rightarrow> s)"

definition read_qty :: "js_string option \<Rightarrow> js_int option" where
  "read_qty answer = js_parseInt (js_ToString answer)"

definition stock_in_item :: "item \<Rightarrow> js_int \<Rightarrow> js_string \<Rightarrow> item" where
  "stock_in_item it q now =
     it\<lparr>inventoryQty := inventoryQty it + q,
        history := history it @ [\<lparr>type = IN, qty = q, date = now\<rparr>]\<rparr>"

definition stock_out_item :: "item \<Rightarrow> js_int \<Rightarrow> js_string \<Rightarrow> item" where
  "stock_out_item it q now =
     it\<lparr>inventoryQty := inventoryQty it - q,
        history := history it @ [\<lparr>type = OUT, qty = q, date = now\<rparr>]\<rparr>"

text \<open>
  \<open>if (!qty || qty <= 0)\<close>: \<open>NaN\<close> and \<open>0\<close> are falsy, and \<open>NaN <= 0\<close> is false.
  Reading \<open>updatedData[index]\<close> (or \<open>inventoryData[index]\<close>) beyond the array gives
  \<open>undefined\<close>, and the property access on it throws a \<open>TypeError\<close>.
\<close>

text \<open>The local \<open>qty\<close> of the handlers is \<open>q\<close> here, \<open>qty\<close> being the
  selector of the ledger entry.\<close>

definition handleStockIn ::
  "item list \<Rightarrow> nat \<Rightarrow> js_string option \<Rightarrow> js_string \<Rightarrow> store_error + item list" where
  "handleStockIn inventoryData index answer now =
     (case read_qty answer of
       None \<Rightarrow> Inl InvalidQuantity
     | Some q \<Rightarrow>
         if q = 0 \<or> q \<le> 0 then Inl InvalidQuantity
         else if index < length inventoryData
         then Inr (inventoryData[index := stock_in_item (inventoryData ! index) q now])
         else Inl TypeError)"

definition handleStockOut ::
  "item list \<Rightarrow> nat \<Rightarrow> js_string option \<Rightarrow> js_string \<Rightarrow> store_error + item list" where
  "handleStockOut inventoryData index answer now =
     (case read_qty answer of
       None \<Rightarrow> Inl InvalidQuantity
     | Some q \<Rightarrow>
         if q = 0 \<or> q \<le> 0 then Inl InvalidQuantity
         else if length inventoryData \<le> index then Inl TypeError
         else if q > inventoryQty (inventoryData ! index) then Inl InsufficientStock
         else Inr (inventoryData[index := stock_out_item (inventoryData ! index) q now]))"

text \<open>
  \<open>handleImageUpload\<close>: no file selected returns early; otherwise the \<open>onload\<close>
  callback stores the data URL. Here the read is taken to complete before any other
  handler runs; \<open>Heap\<close> models the read as asynchronous and shows that this
  changes nothing.
\<close>

definition handleImageUpload ::
  "item list \<Rightarrow> nat \<Rightarrow> js_string option \<Rightarrow> store_error + item list" where
  "handleImageUpload inventoryData index file_result =
     (case file_result of
       None \<Rightarrow> Inl NoFileSelected
     | Some result \<Rightarrow>
         if index < length inventoryData
         then Inr (inventoryData[index := (inventoryData ! index)\<lparr>image := Some result\<rparr>])
         else Inl TypeError)"

subsection \<open>Sequences of user actions\<close>

datatype store_op =
    StockIn nat "js_string option" js_string
  | StockOut nat "js_string option" js_string
  | ImageUpload nat "js_string option"

fun store_step :: "item list \<Rightarrow> store_op \<Rightarrow> store_error + item list" where
  "store_step d (StockIn i a now) = handleStockIn d i a now"
| "store_step d (StockOut i a now) = handleStockOut d i a now"
| "store_step d (ImageUpload i f) = handleImageUpload d i f"

definition apply_op :: "item list \<Rightarrow> store_op \<Rightarrow> item list" where
  "apply_op d op = (case store_step d op of Inl _ \<Rightarrow> d | Inr d' \<Rightarrow> d')"

fun run_ops :: "item list \<Rightarrow> store_op list \<Rightarrow> item list" where
  "run_ops d [] = d"
| "run_ops d (op # ops) = run_ops (apply_op d op) ops"

declare stock_in_item_def [store_simps] stock_out_item_def [store_simps]

lemmas handler_defs = handleStockIn_def handleStockOut_def handleImageUpload_def

subsection \<open>Each record operation keeps the record invariant\<close>

lemma item_ok_stock_in:
  "item_ok it \<Longrightarrow> 0 < q \<Longrightarrow> item_ok (stock_in_item it q now)"
  by (simp add: item_ok_def ledger_consistent_def store_simps)

lemma item_ok_stock_out:
  "item_ok it \<Longrightarrow> 0 < q \<Longrightarrow> q \<le> inventoryQty it \<Longrightarrow> item_ok (stock_out_item it q now)"
  by (simp add: item_ok_def ledger_consistent_def store_simps)

lemma item_ok_image: "item_ok it \<Longrightarrow> item_ok (it\<lparr>image := v\<rparr>)"
  by (simp add: item_ok_def ledger_consistent_def)

lemma store_ok_nth: "store_ok d \<Longrightarrow> i < length d \<Longrightarrow> item_ok (d ! i)"
  by (simp add: store_ok_def list_all_length)

lemma store_ok_update: "store_ok d \<Longrightarrow> item_ok x \<Longrightarrow> store_ok (d[i := x])"
  by (simp add: store_ok_def list_all_update)

subsection \<open>Every branch of the handlers\<close>

lemma handleStockIn_cases:
  "handleStockIn d i a now =
     (case read_qty a of
       None \<Rightarrow> Inl InvalidQuantity
     | Some q \<Rightarrow>
         if q \<le> 0 then Inl InvalidQuantity
         else if i < length d then Inr (d[i := stock_in_item (d ! i) q now])
         else Inl TypeError)"
  by (simp add: handleStockIn_def split: option.split)

lemma handleStockOut_cases:
  "handleStockOut d i a now =
     (case read_qty a of
       None \<Rightarrow> Inl InvalidQuantity
     | Some q \<Rightarrow>
         if q \<le> 0 then Inl InvalidQuantity
         else if length d \<le> i then Inl TypeError
         else if inventoryQty (d ! i) < q then Inl InsufficientStock
         else Inr (d[i := stock_out_item (d ! i) q now]))"
  by (simp add: handleStockOut_def split: option.split)

lemma handleStockIn_Inr:
  "handleStockIn d i a now = Inr d' \<longleftrightarrow>
     (\<exists>q. read_qty a = Some q \<and> 0 < q \<and> i < length d \<and> d' = d[i := stock_in_item (d ! i) q now])"
  by (auto simp: handleStockIn_cases split: option.split)

lemma handleStockOut_Inr:
  "handleStockOut d i a now = Inr d' \<longleftrightarrow>
     (\<exists>q. read_qty a = Some q \<and> 0 < q \<and> i < length d \<and> q \<le> inventoryQty (d ! i) \<and>
        d' = d[i := stock_out_item (d ! i) q now])"
  by (auto simp: handleStockOut_cases split: option.split)

lemma handleImageUpload_Inr:
  "handleImageUpload d i f = Inr d' \<longleftrightarrow>
     (\<exists>r. f = Some r \<and> i < length d \<and> d' = d[i := (d ! i)\<lparr>image := Some r\<rparr>])"
  by (auto simp: handleImageUpload_def split: option.split)

lemmas handler_Inr = handleStockIn_Inr handleStockOut_Inr handleImageUpload_Inr

subsection \<open>The invariant over runs\<close>

lemma store_step_store_ok:
  assumes "store_ok d" and "store_step d op = Inr d'"
  shows "store_ok d'"
proof (cases op)
  case (StockIn i a now)
  with assms show ?thesis
    by (auto simp: handler_Inr intro: store_ok_update item_ok_stock_in store_ok_nth)
next
  case (StockOut i a now)
  with assms show ?thesis
    by (auto simp: handler_Inr intro: store_ok_update item_ok_stock_out store_ok_nth)
next
  case (ImageUpload i f)
  with assms show ?thesis
    by (auto simp: handler_Inr intro: store_ok_update item_ok_image store_ok_nth)
qed

lemma apply_op_store_ok: "store_ok d \<Longrightarrow> store_ok (apply_op d op)"
  by (auto simp: apply_op_def split: sum.split intro: store_step_store_ok)

lemma run_ops_append [simp]: "run_ops d (xs @ ys) = run_ops (run_ops d xs) ys"
  by (induction xs arbitrary: d) simp_all

lemma run_ops_store_ok: "store_ok d \<Longrightarrow> store_ok (run_ops d ops)"
  by (induction ops arbitrary: d) (simp_all add: apply_op_store_ok)

lemma store_ok_initialData: "store_ok initialData"
  by (simp add: store_ok_def initialData_def seed_raw_items_def item_ok_with_initialQty)

subsection \<open>What a step leaves alone\<close>

lemma store_step_frame:
  assumes "store_step d op = Inr d'"
  shows "length d' = length d"
    and "j < length d \<Longrightarrow> initialQty (d' ! j) = initialQty (d ! j)"
    and "j < length d \<Longrightarrow> prefix (history (d ! j)) (history (d' ! j))"
    and "j < length d \<Longrightarrow> materialCode (d' ! j) = materialCode (d ! j)"
  using assms
  by (cases op; auto simp: handler_Inr nth_list_update store_simps)+

lemma read_qty_Some_number:
  "ends_number q rest \<Longrightarrow> read_qty (Some (js_number_to_string q @ rest)) = Some q"
  by (simp add: read_qty_def js_ToString_def js_parseInt_number_prefix)

subsection \<open>Properties of the handlers\<close>

text \<open>C1: from any store whose records satisfy the invariant, after any sequence of
  stock-in, stock-out and image actions (failed ones included) every record's quantity is
  its initial quantity plus the signed sum of its ledger, is non-negative, and every
  ledger entry moves a positive quantity.\<close>

theorem ledger_explains_quantity:
  assumes "store_ok d"
  shows "\<forall>it \<in> set (run_ops d ops).
    inventoryQty it = initialQty it + ledger_sum (history it) \<and> 0 \<le> inventoryQty it \<and>
    list_all (\<lambda>e. 0 < qty e) (history it)"
proof -
  have "store_ok (run_ops d ops)" by (rule run_ops_store_ok [OF assms])
  then show ?thesis
    unfolding store_ok_def list_all_iff item_ok_def ledger_consistent_def by blast
qed

theorem ledger_explains_quantity_witness:
  "inventoryQty (run_ops initialData [StockOut 2 (Some ''95'') ''t1'', StockIn 2 (Some ''20'') ''t2''] ! 2) =
     initialQty (run_ops initialData [StockOut 2 (Some ''95'') ''t1'', StockIn 2 (Some ''20'') ''t2''] ! 2) +
     ledger_sum (history (run_ops initialData [StockOut 2 (Some ''95'') ''t1'', StockIn 2 (Some ''20'') ''t2''] ! 2)) \<and>
   0 \<le> inventoryQty (run_ops initialData [StockOut 2 (Some ''95'') ''t1'', StockIn 2 (Some ''20'') ''t2''] ! 2)"
proof -
  let ?D = "run_ops initialData [StockOut 2 (Some ''95'') ''t1'', StockIn 2 (Some ''20'') ''t2'']"
  have "length ?D = 3"
    by (simp add: apply_op_def handleStockOut_cases handleStockIn_cases read_qty_def js_ToString_def
        js_simps initialData_def seed_raw_items_def)
  then have "?D ! 2 \<in> set ?D" by simp
  then show ?thesis
    using ledger_explains_quantity [OF store_ok_initialData, of "[StockOut 2 (Some ''95'') ''t1'', StockIn 2 (Some ''20'') ''t2'']"]
    by blast
qed

text \<open>C2: a stock-out of a valid quantity larger than the record's quantity is refused
  with the \<open>Stok tidak cukup!\<close> alert and changes nothing.\<close>

theorem stockOut_insufficient_stock:
  assumes "read_qty a = Some q" and "0 < q" and "i < length d" and "inventoryQty (d ! i) < q"
  shows "handleStockOut d i a now = Inl InsufficientStock \<and> apply_op d (StockOut i a now) = d"
  using assms by (simp add: handleStockOut_cases apply_op_def)

theorem stockOut_insufficient_stock_witness:
  "read_qty (Some ''5'') = Some 5 \<and> inventoryQty (initialData ! 0) < 5 \<and>
   handleStockOut initialData 0 (Some ''5'') ''t'' = Inl InsufficientStock"
proof -
  have r: "read_qty (Some ''5'') = Some 5" by (simp add: read_qty_def js_ToString_def js_simps)
  have q: "inventoryQty (initialData ! 0) < 5" by (simp add: initialData_def seed_raw_items_def)
  have l: "0 < length initialData" by (simp add: initialData_def seed_raw_items_def)
  show ?thesis using stockOut_insufficient_stock [OF r _ l q] r q by simp
qed

text \<open>C3: a quantity that does not parse (a cancelled prompt included) or is not
  positive is refused by both stock handlers with the \<open>Masukkan jumlah valid!\<close> alert,
  whatever the index, and the inventory is left as it was.\<close>

theorem stock_rejects_invalid_quantity:
  assumes "read_qty a = None \<or> (\<exists>q. read_qty a = Some q \<and> q \<le> 0)"
  shows "handleStockIn d i a now = Inl InvalidQuantity \<and> handleStockOut d i a now = Inl InvalidQuantity \<and>
    apply_op d (StockIn i a now) = d \<and> apply_op d (StockOut i a now) = d"
  using assms by (auto simp: handleStockIn_cases handleStockOut_cases apply_op_def)

theorem stock_rejects_invalid_quantity_witness:
  "read_qty None = None \<and> read_qty (Some ''-3'') = Some (-3) \<and>
   handleStockIn initialData 0 None ''t'' = Inl InvalidQuantity \<and>
   handleStockOut initialData 7 (Some ''-3'') ''t'' = Inl InvalidQuantity"
proof -
  have n: "read_qty None = None" by (simp add: read_qty_def js_ToString_def js_simps)
  have m: "read_qty (Some ''-3'') = Some (-3)" by (simp add: read_qty_def js_ToString_def js_simps)
  show ?thesis
    using stock_rejects_invalid_quantity [of None initialData 0 "''t''"]
      stock_rejects_invalid_quantity [of "Some ''-3''" initialData 7 "''t''"] n m
    by simp
qed

text \<open>C4: a stock-in of a positive quantity on an existing record succeeds: that record's
  quantity grows by the amount, its ledger gains exactly one \<open>IN\<close> entry with the
  amount and the time stamp at its end, its initial quantity and image stay, and every
  other record is unchanged.\<close>

theorem stockIn_success:
  assumes "read_qty a = Some q" and "0 < q" and "i < length d"
  shows "\<exists>d'. handleStockIn d i a now = Inr d' \<and> length d' = length d \<and>
    inventoryQty (d' ! i) = inventoryQty (d ! i) + q \<and>
    history (d' ! i) = history (d ! i) @ [\<lparr>type = IN, qty = q, date = now\<rparr>] \<and>
    initialQty (d' ! i) = initialQty (d ! i) \<and> image (d' ! i) = image (d ! i) \<and>
    (\<forall>j. j \<noteq> i \<longrightarrow> d' ! j = d ! j)"
  using assms by (simp add: handleStockIn_cases store_simps)

theorem stockIn_success_witness:
  "\<exists>d'. handleStockIn initialData 1 (Some ''20'') ''t'' = Inr d' \<and> length d' = length initialData \<and>
    inventoryQty (d' ! 1) = 23 \<and>
    history (d' ! 1) = [\<lparr>type = IN, qty = 20, date = ''t''\<rparr>] \<and>
    initialQty (d' ! 1) = 3 \<and> image (d' ! 1) = None \<and> d' ! 0 = initialData ! 0"
proof -
  have r: "read_qty (Some ''20'') = Some 20" by (simp add: read_qty_def js_ToString_def js_simps)
  have l: "1 < length initialData" by (simp add: initialData_def seed_raw_items_def)
  have v: "inventoryQty (initialData ! 1) = 3" "history (initialData ! 1) = []"
    "initialQty (initialData ! 1) = 3" "image (initialData ! 1) = None"
    by (simp_all add: initialData_def seed_raw_items_def with_initialQty_def raw_item.defs item.defs)
  show ?thesis using stockIn_success [OF r _ l, of "''t''"] v by force
qed

text \<open>C5: a stock-out of a positive quantity no larger than the record's quantity
  succeeds: the quantity drops by the amount, the ledger gains exactly one \<open>OUT\<close> entry
  at its end, and every other record is unchanged.\<close>

theorem stockOut_success:
  assumes "read_qty a = Some q" and "0 < q" and "i < length d" and "q \<le> inventoryQty (d ! i)"
  shows "\<exists>d'. handleStockOut d i a now = Inr d' \<and> length d' = length d \<and>
    inventoryQty (d' ! i) = inventoryQty (d ! i) - q \<and>
    history (d' ! i) = history (d ! i) @ [\<lparr>type = OUT, qty = q, date = now\<rparr>] \<and>
    initialQty (d' ! i) = initialQty (d ! i) \<and> image (d' ! i) = image (d ! i) \<and>
    (\<forall>j. j \<noteq> i \<longrightarrow> d' ! j = d ! j)"
  using assms by (simp add: handleStockOut_cases store_simps)

theorem stockOut_success_witness:
  "\<exists>d'. handleStockOut initialData 2 (Some ''95'') ''t'' = Inr d' \<and> length d' = length initialData \<and>
    inventoryQty (d' ! 2) = 2905 \<and>
    history (d' ! 2) = [\<lparr>type = OUT, qty = 95, date = ''t''\<rparr>] \<and>
    initialQty (d' ! 2) = 3000 \<and> image (d' ! 2) = None \<and> d' ! 0 = initialData ! 0"
proof -
  have r: "read_qty (Some ''95'') = Some 95" by (simp add: read_qty_def js_ToString_def js_simps)
  have l: "2 < length initialData" by (simp add: initialData_def seed_raw_items_def)
  have v: "inventoryQty (initialData ! 2) = 3000" "history (initialData ! 2) = []"
    "initialQty (initialData ! 2) = 3000" "image (initialData ! 2) = None"
    by (simp_all add: initialData_def seed_raw_items_def with_initialQty_def raw_item.defs item.defs)
  show ?thesis using stockOut_success [OF r _ l, of "''t''"] v by force
qed

text \<open>C6: no stock-out makes a quantity negative: if every record's quantity is
  non-negative before a successful stock-out, it is after.\<close>

theorem stockOut_never_negative:
  assumes "list_all (\<lambda>it. 0 \<le> inventoryQty it) d" and "handleStockOut d i a now = Inr d'"
  shows "list_all (\<lambda>it. 0 \<le> inventoryQty it) d'"
  using assms by (auto simp: handleStockOut_Inr store_simps)

theorem stockOut_never_negative_witness:
  "list_all (\<lambda>it. 0 \<le> inventoryQty it) initialData \<and>
   handleStockOut initialData 0 (Some ''1'') ''t'' = Inr (initialData[0 := stock_out_item (initialData ! 0) 1 ''t'']) \<and>
   list_all (\<lambda>it. 0 \<le> inventoryQty it) (initialData[0 := stock_out_item (initialData ! 0) 1 ''t''])"
proof -
  have a: "list_all (\<lambda>it. 0 \<le> inventoryQty it) initialData"
    by (simp add: initialData_def seed_raw_items_def)
  have r: "read_qty (Some ''1'') = Some 1" by (simp add: read_qty_def js_ToString_def js_simps)
  have h: "handleStockOut initialData 0 (Some ''1'') ''t'' = Inr (initialData[0 := stock_out_item (initialData ! 0) 1 ''t''])"
    using r by (simp add: handleStockOut_cases initialData_def seed_raw_items_def)
  show ?thesis using stockOut_never_negative [OF a h] a h by simp
qed

text \<open>C7: the ledger is append-only and the identity of a record is stable: after any
  sequence of actions the store has as many records, each record's old history is a
  prefix of its new one, and its \<open>initialQty\<close> and \<open>materialCode\<close> are unchanged.\<close>

theorem ledger_append_only:
  assumes "j < length d"
  shows "length (run_ops d ops) = length d \<and> prefix (history (d ! j)) (history (run_ops d ops ! j)) \<and>
    initialQty (run_ops d ops ! j) = initialQty (d ! j) \<and>
    materialCode (run_ops d ops ! j) = materialCode (d ! j)"
  using assms
proof (induction ops arbitrary: d)
  case Nil
  then show ?case by simp
next
  case (Cons op ops)
  have step: "length (apply_op d op) = length d \<and> prefix (history (d ! j)) (history (apply_op d op ! j)) \<and>
      initialQty (apply_op d op ! j) = initialQty (d ! j) \<and> materialCode (apply_op d op ! j) = materialCode (d ! j)"
    using Cons.prems store_step_frame [of d op] by (auto simp: apply_op_def split: sum.split)
  with Cons.prems Cons.IH [of "apply_op d op"] show ?case
    by (auto intro: prefix_order.trans)
qed

theorem ledger_append_only_witness:
  "length (run_ops initialData [StockOut 2 (Some ''95'') ''t'']) = length initialData \<and>
   prefix (history (initialData ! 2)) (history (run_ops initialData [StockOut 2 (Some ''95'') ''t''] ! 2)) \<and>
   initialQty (run_ops initialData [StockOut 2 (Some ''95'') ''t''] ! 2) = initialQty (initialData ! 2) \<and>
   materialCode (run_ops initialData [StockOut 2 (Some ''95'') ''t''] ! 2) = materialCode (initialData ! 2)"
proof -
  have l: "2 < length initialData" by (simp add: initialData_def seed_raw_items_def)
  show ?thesis by (rule ledger_append_only [OF l])
qed

text \<open>C24: the quantity check accepts any answer that merely starts with a positive
  number: \<open>parseInt\<close> ignores what follows the digits, so \<open>"5abc"\<close>, \<open>"5.9"\<close> or
  \<open>"5e3"\<close> stock in 5 units, where the specification asks for non-numeric input to be
  refused.\<close>

theorem stockIn_accepts_trailing_text:
  assumes "0 < q" and "ends_number q rest" and "i < length d"
  shows "handleStockIn d i (Some (js_number_to_string q @ rest)) now =
    Inr (d[i := stock_in_item (d ! i) q now])"
  using assms by (simp add: handleStockIn_cases read_qty_Some_number)

theorem stockIn_accepts_trailing_text_witness:
  "handleStockIn initialData 0 (Some ''5abc'') ''t'' = Inr (initialData[0 := stock_in_item (initialData ! 0) 5 ''t''])"
proof -
  have e: "ends_number 5 ''abc''" by (simp add: ends_number_def js_simps)
  have s: "js_number_to_string 5 @ ''abc'' = ''5abc''" by code_simp
  have l: "0 < length initialData" by (simp add: initialData_def seed_raw_items_def)
  show ?thesis using stockIn_accepts_trailing_text [OF _ e l, of "''t''"] s by simp
qed

text \<open>C25: the handlers do not check the index: with a valid quantity and an index past
  the end of the array, both stock handlers and the image callback throw a
  \<open>TypeError\<close> instead of showing an alert, and the state stays as it was.\<close>

theorem out_of_range_index_throws:
  assumes "read_qty a = Some q" and "0 < q" and "length d \<le> i"
  shows "handleStockIn d i a now = Inl TypeError \<and> handleStockOut d i a now = Inl TypeError \<and>
    handleImageUpload d i (Some r) = Inl TypeError"
  using assms by (simp add: handleStockIn_cases handleStockOut_cases handleImageUpload_def)

theorem out_of_range_index_throws_witness:
  "handleStockIn initialData 3 (Some ''7'') ''t'' = Inl TypeError \<and>
   handleStockOut initialData 3 (Some ''7'') ''t'' = Inl TypeError \<and>
   handleImageUpload initialData 3 (Some ''data:,'') = Inl TypeError"
proof -
  have r: "read_qty (Some ''7'') = Some 7" by (simp add: read_qty_def js_ToString_def js_simps)
  have l: "length initialData \<le> 3" by (simp add: initialData_def seed_raw_items_def)
  show ?thesis using out_of_range_index_throws [OF r _ l] by simp
qed

text \<open>C26: attaching an image replaces the record's image and nothing else; with no
  file chosen the handler returns before \<open>setInventoryData\<close>, so nothing changes.\<close>

theorem imageUpload_replaces_image:
  assumes "i < length d"
  shows "handleImageUpload d i None = Inl NoFileSelected \<and>
    (\<exists>d'. handleImageUpload d i (Some r) = Inr d' \<and> length d' = length d \<and>
       image (d' ! i) = Some r \<and> inventoryQty (d' ! i) = inventoryQty (d ! i) \<and>
       history (d' ! i) = history (d ! i) \<and> initialQty (d' ! i) = initialQty (d ! i) \<and>
       (\<forall>j. j \<noteq> i \<longrightarrow> d' ! j = d ! j))"
  using assms by (simp add: handleImageUpload_def)

theorem imageUpload_replaces_image_witness:
  "handleImageUpload initialData 1 None = Inl NoFileSelected \<and>
   (\<exists>d'. handleImageUpload initialData 1 (Some ''data:image/png;base64,AA=='') = Inr d' \<and>
      length d' = 3 \<and> image (d' ! 1) = Some ''data:image/png;base64,AA=='' \<and>
      inventoryQty (d' ! 1) = 3 \<and> history (d' ! 1) = [] \<and> initialQty (d' ! 1) = 3 \<and>
      d' ! 2 = initialData ! 2)"
proof -
  have l: "1 < length initialData" by (simp add: initialData_def seed_raw_items_def)
  have v: "length initialData = 3" "inventoryQty (initialData ! 1) = 3" "history (initialData ! 1) = []"
    "initialQty (initialData ! 1) = 3"
    by (simp_all add: initialData_def seed_raw_items_def)
  show ?thesis using imageUpload_replaces_image [OF l, of "''data:image/png;base64,AA==''"] v by force
qed


lemma read_qty_5: "read_qty (Some ''5'') = Some 5"
  by (simp add: read_qty_def js_ToString_def js_simps)

end
