(* ===== verification/Aggregate.thy ===== *)
theory Aggregate
  imports Store
begin

text \<open>
  The values the component derives from \<open>inventoryData\<close> on every render
  (\<open>src/App.jsx\<close> lines 88--93): the warehouse and grouping options of the two
  \<open>select\<close>s, the number of records, the total stock (a \<open>reduce\<close>) and the number of
  records below ten percent of their initial quantity. They are pure functions of the
  array; the lemmas relate them to the ledger operations of \<open>Store\<close>.
\<close>

definition warehouseOptions :: "item list \<Rightarrow> js_string list" where
  "warehouseOptions inventoryData = js_Set_spread (map warehouseName inventoryData)"

definition groupingOptions :: "item list \<Rightarrow> js_string list" where
  "groupingOptions inventoryData = js_Set_spread (map materialGrouping inventoryData)"

definition totalItems :: "item list \<Rightarrow> nat" where
  "totalItems inventoryData = length inventoryData"

definition totalStock :: "item list \<Rightarrow> js_int" where
  "totalStock inventoryData = foldl (\<lambda>sum it. sum + inventoryQty it) 0 inventoryData"

definition is_low_stock :: "item \<Rightarrow> bool" where
  "is_low_stock it \<longleftrightarrow> rat_of_int (inventoryQty it) < js_mul_tenth (initialQty it)"

definition lowStockCount :: "item list \<Rightarrow> nat" where
  "lowStockCount inventoryData = length (filter is_low_stock inventoryData)"

lemma totalStock_sum_list: "totalStock d = sum_list (map inventoryQty d)"
  by (simp add: totalStock_def foldl_add_sum_list)

lemma is_low_stock_int: "is_low_stock it \<longleftrightarrow> 10 * inventoryQty it < initialQty it"
  by (simp add: is_low_stock_def)

lemma is_low_stock_eq: "is_low_stock = (\<lambda>it. 10 * inventoryQty it < initialQty it)"
  by (simp add: fun_eq_iff is_low_stock_int)

lemma store_step_keeps_facets:
  assumes "store_step d op = Inr d'"
  shows "map warehouseName d' = map warehouseName d \<and> map materialGrouping d' = map materialGrouping d"
proof -
  have "warehouseName (d' ! j) = warehouseName (d ! j) \<and> materialGrouping (d' ! j) = materialGrouping (d ! j)"
    if "j < length d" for j
    using assms that by (cases op; auto simp: handler_Inr nth_list_update store_simps)
  moreover have "length d' = length d" using store_step_frame(1) [OF assms] .
  ultimately show ?thesis by (simp add: list_eq_iff_nth_eq)
qed

text \<open>C13: the low-stock count is the number of records whose quantity is below a
  tenth of their initial quantity, which in integers is \<open>10 * inventoryQty < initialQty\<close>;
  a record whose initial quantity is 0 and whose quantity is not negative is never
  counted.\<close>

theorem lowStockCount_spec:
  "lowStockCount d = length (filter (\<lambda>it. 10 * inventoryQty it < initialQty it) d) \<and>
   (\<forall>it \<in> set d. initialQty it = 0 \<and> 0 \<le> inventoryQty it \<longrightarrow> \<not> is_low_stock it)"
  by (simp add: lowStockCount_def is_low_stock_eq)

theorem lowStockCount_spec_witness:
  "lowStockCount [(initialData ! 0)\<lparr>initialQty := 0\<rparr>, initialData ! 1] = 0 \<and>
   \<not> is_low_stock ((initialData ! 0)\<lparr>initialQty := 0\<rparr>)"
proof -
  have "\<forall>it \<in> set [(initialData ! 0)\<lparr>initialQty := 0\<rparr>, initialData ! 1].
      initialQty it = 0 \<and> 0 \<le> inventoryQty it \<longrightarrow> \<not> is_low_stock it"
    using lowStockCount_spec by blast
  moreover have "lowStockCount [(initialData ! 0)\<lparr>initialQty := 0\<rparr>, initialData ! 1] =
      length (filter (\<lambda>it. 10 * inventoryQty it < initialQty it) [(initialData ! 0)\<lparr>initialQty := 0\<rparr>, initialData ! 1])"
    using lowStockCount_spec by blast
  ultimately show ?thesis
    by (simp add: initialData_def seed_raw_items_def with_initialQty_def raw_item.defs item.defs)
qed

text \<open>C15: the total stock is the sum of the quantities, and the totals follow the
  ledger: a successful stock-in of \<open>q\<close> raises it by \<open>q\<close>, a successful stock-out
  lowers it by \<open>q\<close>, and neither changes the number of records.\<close>

theorem totals_follow_stock_moves:
  assumes "read_qty a = Some q"
  shows "totalStock d = sum_list (map inventoryQty d) \<and>
    (handleStockIn d i a now = Inr d' \<longrightarrow> totalStock d' = totalStock d + q \<and> totalItems d' = totalItems d) \<and>
    (handleStockOut d i a now = Inr d'' \<longrightarrow> totalStock d'' = totalStock d - q \<and> totalItems d'' = totalItems d)"
  using assms
  by (auto simp: totalStock_sum_list totalItems_def handleStockIn_Inr handleStockOut_Inr store_simps)

theorem totals_follow_stock_moves_witness:
  "totalStock initialData = 3004 \<and>
   handleStockIn initialData 2 (Some ''20'') ''t'' = Inr (initialData[2 := stock_in_item (initialData ! 2) 20 ''t'']) \<and>
   totalStock (initialData[2 := stock_in_item (initialData ! 2) 20 ''t'']) = 3024"
proof -
  have r: "read_qty (Some ''20'') = Some 20" by (simp add: read_qty_def js_ToString_def js_simps)
  have h: "handleStockIn initialData 2 (Some ''20'') ''t'' = Inr (initialData[2 := stock_in_item (initialData ! 2) 20 ''t''])"
    using r by (simp add: handleStockIn_cases initialData_def seed_raw_items_def)
  have t: "totalStock initialData = 3004"
    by (simp add: totalStock_def initialData_def seed_raw_items_def)
  show ?thesis
    using totals_follow_stock_moves [OF r, of initialData 2 "''t''" "initialData[2 := stock_in_item (initialData ! 2) 20 ''t'']"] h t
    by simp
qed

text \<open>C28: the warehouse options list every warehouse of the store once, in the order
  of first appearance, and no stock or image action changes the warehouse or grouping
  options.\<close>

theorem facet_options:
  "warehouseOptions d = rev (remdups (rev (map warehouseName d))) \<and> distinct (warehouseOptions d) \<and>
   set (warehouseOptions d) = warehouseName ` set d \<and>
   (store_step d op = Inr d' \<longrightarrow> warehouseOptions d' = warehouseOptions d \<and> groupingOptions d' = groupingOptions d)"
  using store_step_keeps_facets [of d op d']
  by (auto simp: warehouseOptions_def groupingOptions_def js_Set_spread_remdups)

theorem facet_options_witness:
  "warehouseOptions initialData = [''Pulp Tray (Consumable Material)'', ''Pulp Tray (Finished Product)''] \<and>
   store_step initialData (StockIn 0 None ''t'') = Inl InvalidQuantity"
proof -
  have "warehouseOptions initialData = rev (remdups (rev (map warehouseName initialData)))"
    using facet_options by blast
  moreover have "store_step initialData (StockIn 0 None ''t'') = Inl InvalidQuantity"
    by (simp add: handleStockIn_cases read_qty_def js_ToString_def js_simps)
  ultimately show ?thesis by (simp add: initialData_def seed_raw_items_def)
qed

end
