(* ===== verification/Query.thy ===== *)
theory Query
  imports Item JsLib
begin

text \<open>
  The visible rows (\<open>src/App.jsx\<close> lines 95--102): a record is shown when the
  lower-cased search text occurs in its lower-cased name or code, and the warehouse and
  grouping filters are empty or equal its warehouse and grouping. The three tests are
  separate definitions, as the three \<open>const\<close>s of the source.
\<close>

definition matchesSearch :: "js_string \<Rightarrow> item \<Rightarrow> bool" where
  "matchesSearch searchTerm item \<longleftrightarrow>
     js_includes (js_toLowerCase (materialName item)) (js_toLowerCase searchTerm) \<or>
     js_includes (js_toLowerCase (materialCode item)) (js_toLowerCase searchTerm)"

definition matchesWarehouse :: "js_string \<Rightarrow> item \<Rightarrow> bool" where
  "matchesWarehouse filterWarehouse item \<longleftrightarrow> filterWarehouse = [] \<or> warehouseName item = filterWarehouse"

definition matchesGrouping :: "js_string \<Rightarrow> item \<Rightarrow> bool" where
  "matchesGrouping filterGrouping item \<longleftrightarrow> filterGrouping = [] \<or> materialGrouping item = filterGrouping"

definition filteredData :: "js_string \<Rightarrow> js_string \<Rightarrow> js_string \<Rightarrow> item list \<Rightarrow> item list" where
  "filteredData searchTerm filterWarehouse filterGrouping inventoryData =
     filter (\<lambda>item. matchesSearch searchTerm item \<and> matchesWarehouse filterWarehouse item \<and>
                    matchesGrouping filterGrouping item) inventoryData"

lemma matchesSearch_sublist:
  "matchesSearch s it \<longleftrightarrow>
     sublist (js_toLowerCase s) (js_toLowerCase (materialName it)) \<or>
     sublist (js_toLowerCase s) (js_toLowerCase (materialCode it))"
  by (simp add: matchesSearch_def js_includes_sublist)

text \<open>C14: a record is visible exactly when it is in the store, the lower-cased search
  text is a substring of its lower-cased name or code, and each of the two filters is
  empty or equal to its warehouse (grouping); the visible rows keep the store's order.\<close>

theorem filteredData_iff:
  "(it \<in> set (filteredData s w g d) \<longleftrightarrow>
     it \<in> set d \<and>
     (sublist (js_toLowerCase s) (js_toLowerCase (materialName it)) \<or>
      sublist (js_toLowerCase s) (js_toLowerCase (materialCode it))) \<and>
     (w = [] \<or> warehouseName it = w) \<and> (g = [] \<or> materialGrouping it = g)) \<and>
   subseq (filteredData s w g d) d"
  by (auto simp: filteredData_def matchesSearch_sublist matchesWarehouse_def matchesGrouping_def)

text \<open>C27: with empty search text and both filters empty every record is shown, and
  searching is case-insensitive: lower-casing the search text changes nothing.\<close>

theorem filteredData_empty_criteria:
  "filteredData [] [] [] d = d \<and> filteredData (js_toLowerCase s) w g d = filteredData s w g d"
  by (simp add: filteredData_def matchesSearch_def matchesWarehouse_def matchesGrouping_def
      js_toLowerCase_def [of "[]"])

end
