(* ===== verification/Export.thy ===== *)
theory Export
  imports Item JsLib
begin

text \<open>
  \<open>handleExportExcel\<close> (\<open>src/App.jsx\<close> lines 123--150) maps every record of
  \<open>inventoryData\<close> (not the filtered view) to a row object whose keys, in insertion
  order, become the sheet's columns, then builds a workbook with that one sheet and
  asks for its download. A row is an association list from column title to cell; a
  cell holds a string or a number. The conversion of rows into cells inside
  \<open>XLSX.utils.json_to_sheet\<close> and the file format are the library's and are not
  modelled; the workbook calls are, with the library's checks.
\<close>

datatype cell = CStr js_string | CNum js_int

definition safety_stock :: "js_int \<Rightarrow> js_int" where
  "safety_stock q0 = \<lceil>js_mul_tenth q0\<rceil>"

definition export_row :: "item \<Rightarrow> (js_string \<times> cell) list" where
  "export_row item =
    [(''Material Code'', CStr (materialCode item)),
     (''Material Name'', CStr (materialName item)),
     (''Specification'', CStr (specification item)),
     (''Warehouse'', CStr (warehouseName item)),
     (''Lot No.'', CStr (lotNo item)),
     (''Stock Unit'', CStr (stockUnit item)),
     (''Inventory Qty'', CNum (inventoryQty item)),
     (''Initial Qty'', CNum (initialQty item)),
     (''Safety Stock (10%)'', CNum (safety_stock (initialQty item))),
     (''Inventory Status'', CStr (inventoryStatus item)),
     (''Inventory Org.'', CStr (inventoryOrg item)),
     (''Type of Owner'', CStr (typeOfOwner item)),
     (''Owner Name'', CStr (ownerName item)),
     (''Customer P/N'', CStr (customerPN item)),
     (''Brand'', CStr (brand item)),
     (''Gram'', CStr (gram item)),
     (''Material Grouping'', CStr (materialGrouping item)),
     (''Customer End PN'', CStr (customerEndPN item)),
     (''Master Data Property'', CStr (masterDataProperty item))]"

definition export_sheet :: "item list \<Rightarrow> (js_string \<times> cell) list list" where
  "export_sheet inventoryData = map export_row inventoryData"

subsection \<open>The workbook and the file\<close>

text \<open>
  Lines 147--149 hand the sheet to the spreadsheet library: \<open>book_new\<close> makes an empty
  workbook (\<open>SheetNames\<close> and \<open>Sheets\<close>), \<open>book_append_sheet\<close> adds the sheet under a
  name, and \<open>writeFile\<close> asks the browser to download the workbook under a file name.
  The library's own checks are part of the model, since they are the export's only error
  path: a sheet name must be new in the workbook, at most 31 characters long, free of
  colon, backslash, slash, question mark, star and brackets, and must not start or end
  with an apostrophe; an empty name is replaced by the first free \<open>Sheet<n>\<close>. The conversion of the rows
  by \<open>json_to_sheet\<close> (line 124) is the library's and is kept abstract: a sheet is
  the list of row objects it receives.
\<close>

type_synonym sheet = "(js_string \<times> cell) list list"

record workbook =
  SheetNames :: "js_string list"
  Sheets :: "(js_string \<times> sheet) list"

record download =
  file_name :: js_string
  book :: workbook

datatype export_error = DuplicateSheetName | InvalidSheetName

definition book_new :: workbook where
  "book_new = \<lparr>SheetNames = [], Sheets = []\<rparr>"

definition sheet_name_ok :: "js_string \<Rightarrow> bool" where
  "sheet_name_ok n \<longleftrightarrow> length n \<le> 31 \<and>
     list_all (\<lambda>c. c \<notin> set [CHR '':'', CHR 0x5C, CHR ''/'', CHR ''?'', CHR ''*'', CHR ''['', CHR '']'']) n \<and>
     hd n \<noteq> CHR 0x27 \<and> last n \<noteq> CHR 0x27"

text \<open>With no name, the library takes the first \<open>Sheet1\<close>, \<open>Sheet2\<close>, ... not yet in
  the workbook; among the first \<open>length names + 1\<close> candidates one is free.\<close>

fun free_sheet_name :: "js_string list \<Rightarrow> nat \<Rightarrow> nat \<Rightarrow> js_string" where
  "free_sheet_name names i 0 = ''Sheet'' @ js_number_to_string (int i)"
| "free_sheet_name names i (Suc n) =
     (let cand = ''Sheet'' @ js_number_to_string (int i) in
      if cand \<notin> set names then cand else free_sheet_name names (Suc i) n)"

definition book_append_sheet :: "workbook \<Rightarrow> sheet \<Rightarrow> js_string \<Rightarrow> export_error + workbook" where
  "book_append_sheet wb ws name0 =
     (let name = (if name0 = [] then free_sheet_name (SheetNames wb) 1 (length (SheetNames wb)) else name0)
      in if \<not> sheet_name_ok name then Inl InvalidSheetName
         else if name \<in> set (SheetNames wb) then Inl DuplicateSheetName
         else Inr (wb\<lparr>SheetNames := SheetNames wb @ [name], Sheets := Sheets wb @ [(name, ws)]\<rparr>))"

definition writeFile :: "workbook \<Rightarrow> js_string \<Rightarrow> download" where
  "writeFile wb filename = \<lparr>file_name = filename, book = wb\<rparr>"

definition handleExportExcel :: "item list \<Rightarrow> export_error + download" where
  "handleExportExcel inventoryData =
     (let ws = export_sheet inventoryData;
          wb = book_new
      in case book_append_sheet wb ws ''Inventaris'' of
           Inl e \<Rightarrow> Inl e
         | Inr wb' \<Rightarrow> Inr (writeFile wb' ''inventaris_export.xlsx''))"

lemma export_row_lookup [simp]:
  "map_of (export_row it) ''Inventory Qty'' = Some (CNum (inventoryQty it))"
  "map_of (export_row it) ''Safety Stock (10%)'' = Some (CNum (safety_stock (initialQty it)))"
  "map_of (export_row it) ''Initial Qty'' = Some (CNum (initialQty it))"
  by (simp_all add: export_row_def)

text \<open>C29: for a non-negative initial quantity the exported safety stock
  \<open>Math.ceil(initialQty * 0.1)\<close> is \<open>(initialQty + 9) div 10\<close>: the least integer
  whose tenfold is at least the initial quantity; it is non-negative.\<close>

theorem safety_stock_bounds:
  assumes "0 \<le> i"
  shows "safety_stock i = (i + 9) div 10 \<and> 0 \<le> safety_stock i \<and>
    i \<le> 10 * safety_stock i \<and> 10 * (safety_stock i - 1) < i"
  using assms by (simp add: safety_stock_def ceiling_mul_tenth) linarith

theorem safety_stock_bounds_witness:
  "safety_stock 3000 = 300 \<and> safety_stock 3 = 1 \<and> safety_stock 1 = 1"
  using safety_stock_bounds [of 3000] safety_stock_bounds [of 3] safety_stock_bounds [of 1]
  by simp

end
