(* ===== verification/Json.thy ===== *)
theory Json
  imports JsLib
begin

text \<open>
  \<open>JSON.stringify\<close> and \<open>JSON.parse\<close> (ECMA-262 25.5) on the values a snapshot holds:
  \<open>json\<close> has a constructor per JSON value kind, numbers restricted to integers (the
  only numbers of the store). \<open>json_stringify\<close> follows \<open>SerializeJSONProperty\<close>:
  \<open>QuoteJSONString\<close> escapes (\<open>json_quote\<close>), elements and members joined by commas,
  integers printed by \<open>Number::toString\<close>. The parser is recursive descent over the
  JSON grammar (\<open>parse_value\<close>, \<open>parse_elems\<close>, \<open>parse_members\<close>), with white space,
  string escapes and integer literals. It is a restriction of \<open>JSON.parse\<close>: fractions,
  exponents and \<open>\u\<close> escapes at or above 256, which no snapshot contains, are
  rejected as if they were syntax errors; integers are printed in decimal, as
  \<open>Number::toString\<close> does below \<open>1e21\<close> (above it the engine uses exponent
  form, far beyond any quantity of the store). The list and object cases carry length
  guards that make termination evident. The main fact is \<open>JSON_parse_stringify\<close>,
  proved through \<open>parse_value_stringify\<close> for a value followed by any text that may
  follow a value; \<open>JSON_parse_bad_start\<close> shows that a text whose first non-blank
  character cannot start a value is rejected, as \<open>JSON.parse\<close> rejects it.
\<close>

datatype json =
    JNull
  | JBool bool
  | JNum js_int
  | JStr js_string
  | JArr "json list"
  | JObj "(js_string \<times> json) list"

definition hex_char :: "nat \<Rightarrow> char" where
  "hex_char d = (if d < 10 then char_of (48 + d) else char_of (87 + d))"

definition json_escape_char :: "char \<Rightarrow> js_string" where
  "json_escape_char c =
     (if c = CHR 0x08 then [CHR 0x5C, CHR ''b'']
      else if c = CHR 0x09 then [CHR 0x5C, CHR ''t'']
      else if c = CHR 0x0A then [CHR 0x5C, CHR ''n'']
      else if c = CHR 0x0C then [CHR 0x5C, CHR ''f'']
      else if c = CHR 0x0D then [CHR 0x5C, CHR ''r'']
      else if c = CHR 0x22 then [CHR 0x5C, CHR 0x22]
      else if c = CHR 0x5C then [CHR 0x5C, CHR 0x5C]
      else if (of_char c :: nat) < 32
      then [CHR 0x5C, CHR ''u'', CHR ''0'', CHR ''0'',
            hex_char ((of_char c) div 16), hex_char ((of_char c) mod 16)]
      else [c])"

definition json_quote :: "js_string \<Rightarrow> js_string" where
  "json_quote s = CHR 0x22 # concat (map json_escape_char s) @ [CHR 0x22]"

fun commas :: "js_string list \<Rightarrow> js_string" where
  "commas [] = []"
| "commas [x] = x"
| "commas (x # y # zs) = x @ '','' @ commas (y # zs)"

fun json_stringify :: "json \<Rightarrow> js_string" where
  "json_stringify JNull = ''null''"
| "json_stringify (JBool b) = (if b then ''true'' else ''false'')"
| "json_stringify (JNum n) = js_number_to_string n"
| "json_stringify (JStr s) = json_quote s"
| "json_stringify (JArr xs) = ''['' @ commas (map json_stringify xs) @ '']''"
| "json_stringify (JObj ms) =
     ''{'' @ commas (map (\<lambda>(k, v). json_quote k @ '':'' @ json_stringify v) ms) @ ''}''"

definition json_ws :: "char \<Rightarrow> bool" where
  "json_ws c \<longleftrightarrow> c \<in> set [CHR 0x20, CHR 0x09, CHR 0x0A, CHR 0x0D]"

definition skip_ws :: "js_string \<Rightarrow> js_string" where
  "skip_ws s = dropWhile json_ws s"

definition json_unescape :: "char \<Rightarrow> char option" where
  "json_unescape e =
     (if e = CHR 0x22 then Some (CHR 0x22)
      else if e = CHR 0x5C then Some (CHR 0x5C)
      else if e = CHR ''/'' then Some (CHR ''/'')
      else if e = CHR ''b'' then Some (CHR 0x08)
      else if e = CHR ''f'' then Some (CHR 0x0C)
      else if e = CHR ''n'' then Some (CHR 0x0A)
      else if e = CHR ''r'' then Some (CHR 0x0D)
      else if e = CHR ''t'' then Some (CHR 0x09)
      else None)"

definition hex_value :: "char \<Rightarrow> nat option" where
  "hex_value c = (let d = digit_value c in if d < 16 then Some d else None)"

definition hex4 :: "char \<Rightarrow> char \<Rightarrow> char \<Rightarrow> char \<Rightarrow> nat option" where
  "hex4 a b c d =
     (case (hex_value a, hex_value b, hex_value c, hex_value d) of
       (Some w, Some x, Some y, Some z) \<Rightarrow> Some (((w * 16 + x) * 16 + y) * 16 + z)
     | _ \<Rightarrow> None)"

fun parse_chars :: "js_string \<Rightarrow> (js_string \<times> js_string) option" where
  "parse_chars [] = None"
| "parse_chars (c # cs) =
     (if c = CHR 0x22 then Some ([], cs)
      else if c = CHR 0x5C then
        (case cs of
          [] \<Rightarrow> None
        | e # cs' \<Rightarrow>
            (case json_unescape e of
              Some u \<Rightarrow> map_option (\<lambda>(x, r). (u # x, r)) (parse_chars cs')
            | None \<Rightarrow>
                if e = CHR ''u'' then
                  (case cs' of
                    h1 # h2 # h3 # h4 # cs'' \<Rightarrow>
                      (case hex4 h1 h2 h3 h4 of
                        Some n \<Rightarrow>
                          if n < 256 then map_option (\<lambda>(x, r). (char_of n # x, r)) (parse_chars cs'')
                          else None
                      | None \<Rightarrow> None)
                  | _ \<Rightarrow> None)
                else None))
      else if (of_char c :: nat) < 32 then None
      else map_option (\<lambda>(x, r). (c # x, r)) (parse_chars cs))"

definition is_dec :: "char \<Rightarrow> bool" where
  "is_dec c \<longleftrightarrow> digit_value c < 10"

definition parse_number :: "js_string \<Rightarrow> (json \<times> js_string) option" where
  "parse_number s =
     (let (neg, s1) = (if s \<noteq> [] \<and> hd s = CHR ''-'' then (True, tl s) else (False, s));
          ds = takeWhile is_dec s1;
          rest = dropWhile is_dec s1
      in if ds = [] \<or> (hd ds = CHR ''0'' \<and> 2 \<le> length ds) then None
         else if rest \<noteq> [] \<and> hd rest \<in> {CHR ''.'', CHR ''e'', CHR ''E''} then None
         else Some (JNum ((if neg then -1 else 1) * int (digits_to_nat 10 ds)), rest))"

function parse_value :: "js_string \<Rightarrow> (json \<times> js_string) option"
  and parse_elems :: "js_string \<Rightarrow> (json list \<times> js_string) option"
  and parse_members :: "js_string \<Rightarrow> ((js_string \<times> json) list \<times> js_string) option"
where
  "parse_value s =
     (let t = skip_ws s in
      if starts_with t ''null'' then Some (JNull, drop 4 t)
      else if starts_with t ''true'' then Some (JBool True, drop 4 t)
      else if starts_with t ''false'' then Some (JBool False, drop 5 t)
      else (case t of
        [] \<Rightarrow> None
      | c # r \<Rightarrow>
          if c = CHR 0x22 then map_option (\<lambda>(x, r'). (JStr x, r')) (parse_chars r)
          else if c = CHR ''['' then
            (if starts_with (skip_ws r) '']'' then Some (JArr [], tl (skip_ws r))
             else map_option (\<lambda>(xs, r'). (JArr xs, r')) (parse_elems r))
          else if c = CHR ''{'' then
            (if starts_with (skip_ws r) ''}'' then Some (JObj [], tl (skip_ws r))
             else map_option (\<lambda>(ms, r'). (JObj ms, r')) (parse_members r))
          else parse_number t))"
| "parse_elems s =
     (case parse_value s of
       None \<Rightarrow> None
     | Some (v, r) \<Rightarrow>
         (case skip_ws r of
           [] \<Rightarrow> None
         | c # r' \<Rightarrow>
             if c = CHR '','' \<and> length r' < length s
             then map_option (\<lambda>(vs, r''). (v # vs, r'')) (parse_elems r')
             else if c = CHR '']'' then Some ([v], r')
             else None))"
| "parse_members s =
     (case skip_ws s of
       [] \<Rightarrow> None
     | c # r \<Rightarrow>
         if c \<noteq> CHR 0x22 then None
         else (case parse_chars r of
           None \<Rightarrow> None
         | Some (k, r1) \<Rightarrow>
             (case skip_ws r1 of
               [] \<Rightarrow> None
             | d # r2 \<Rightarrow>
                 if d \<noteq> CHR '':'' \<or> \<not> length r2 < length s then None
                 else (case parse_value r2 of
                   None \<Rightarrow> None
                 | Some (v, r3) \<Rightarrow>
                     (case skip_ws r3 of
                       [] \<Rightarrow> None
                     | e # r4 \<Rightarrow>
                         if e = CHR '','' \<and> length r4 < length s
                         then map_option (\<lambda>(ms, r5). ((k, v) # ms, r5)) (parse_members r4)
                         else if e = CHR ''}'' then Some ([(k, v)], r4)
                         else None)))))"
  by pat_completeness auto
termination
proof -
  have l: "length r < length s" if "skip_ws s = c # r" for s c r
  proof -
    have "length (skip_ws s) \<le> length s" by (simp add: skip_ws_def length_dropWhile_le)
    with that show ?thesis by simp
  qed
  show ?thesis
    by (relation "measure (\<lambda>x. case x of
        Inl s \<Rightarrow> 3 * length s + 1 | Inr (Inl s) \<Rightarrow> 3 * length s + 2 | Inr (Inr s) \<Rightarrow> 3 * length s + 2)")
      (auto dest: l l [OF sym])
qed

definition JSON_parse :: "js_string \<Rightarrow> json option" where
  "JSON_parse text =
     (case parse_value text of
       None \<Rightarrow> None
     | Some (v, r) \<Rightarrow> if skip_ws r = [] then Some v else None)"

definition json_follow :: "js_string \<Rightarrow> bool" where
  "json_follow rest \<longleftrightarrow> rest = [] \<or> hd rest \<in> {CHR '','', CHR '']'', CHR ''}''}"

lemma hex_value_hex_char [simp]: "d < 16 \<Longrightarrow> hex_value (hex_char d) = Some d"
proof -
  assume d: "d < 16"
  show ?thesis
  proof (cases "d < 10")
    case True
    then show ?thesis by (simp add: hex_char_def hex_value_def)
  next
    case False
    with d have "of_char (char_of (87 + d)) = (87 + d :: nat)" by (simp add: of_char_of)
    with False d show ?thesis by (simp add: hex_char_def hex_value_def digit_value_def)
  qed
qed

lemma parse_chars_escape_char:
  "parse_chars (json_escape_char c @ t) = map_option (\<lambda>(x, r). (c # x, r)) (parse_chars t)"
proof -
  let ?n = "of_char c :: nat"
  have named: "parse_chars (json_escape_char c @ t) = map_option (\<lambda>(x, r). (c # x, r)) (parse_chars t)"
    if "c \<in> {CHR 0x08, CHR 0x09, CHR 0x0A, CHR 0x0C, CHR 0x0D, CHR 0x22, CHR 0x5C}"
    using that by (auto simp: json_escape_char_def json_unescape_def)
  have ctrl: "parse_chars (json_escape_char c @ t) = map_option (\<lambda>(x, r). (c # x, r)) (parse_chars t)"
    if "c \<notin> {CHR 0x08, CHR 0x09, CHR 0x0A, CHR 0x0C, CHR 0x0D, CHR 0x22, CHR 0x5C}" and "?n < 32"
  proof -
    have z: "hex_value (CHR ''0'') = Some 0" by (simp add: hex_value_def digit_value_def)
    have "?n div 16 < 16" "?n mod 16 < 16" using that(2) by simp_all
    then have h: "hex4 (CHR ''0'') (CHR ''0'') (hex_char (?n div 16)) (hex_char (?n mod 16)) = Some ?n"
      by (simp add: hex4_def z)
    have e: "json_escape_char c = [CHR 0x5C, CHR ''u'', CHR ''0'', CHR ''0'',
        hex_char (?n div 16), hex_char (?n mod 16)]"
      using that by (auto simp: json_escape_char_def)
    show ?thesis using h that(2) by (simp add: e json_unescape_def)
  qed
  have plain: "parse_chars (json_escape_char c @ t) = map_option (\<lambda>(x, r). (c # x, r)) (parse_chars t)"
    if "c \<notin> {CHR 0x08, CHR 0x09, CHR 0x0A, CHR 0x0C, CHR 0x0D, CHR 0x22, CHR 0x5C}" and "\<not> ?n < 32"
    using that by (auto simp: json_escape_char_def)
  show ?thesis using named ctrl plain by blast
qed

lemma parse_chars_quoted:
  "parse_chars (concat (map json_escape_char s) @ CHR 0x22 # rest) = Some (s, rest)"
  by (induction s) (simp_all add: parse_chars_escape_char)

declare parse_value.simps [simp del] parse_elems.simps [simp del] parse_members.simps [simp del]

lemma json_follow_hd:
  "json_follow rest \<Longrightarrow> rest \<noteq> [] \<Longrightarrow>
     \<not> is_dec (hd rest) \<and> hd rest \<notin> {CHR ''.'', CHR ''e'', CHR ''E''} \<and> \<not> json_ws (hd rest)"
  by (auto simp: json_follow_def is_dec_def digit_value_def json_ws_def)

lemma dec_digits_split:
  assumes "json_follow rest"
  shows "takeWhile is_dec (nat_to_digits m @ rest) = nat_to_digits m"
    and "dropWhile is_dec (nat_to_digits m @ rest) = rest"
proof -
  have d: "is_dec c" if "c \<in> set (nat_to_digits m)" for c
    using that nat_to_digits_decimal decimal_char_facts(1) by (auto simp: is_dec_def)
  have r: "takeWhile is_dec rest = []" "dropWhile is_dec rest = rest"
    using json_follow_hd [OF assms] by (cases rest; simp)+
  show "takeWhile is_dec (nat_to_digits m @ rest) = nat_to_digits m"
    using d r by (simp add: takeWhile_append2)
  show "dropWhile is_dec (nat_to_digits m @ rest) = rest"
    using d r by (simp add: dropWhile_append2)
qed

lemma nat_to_digits_leading_zero:
  "hd (nat_to_digits m) = CHR ''0'' \<Longrightarrow> length (nat_to_digits m) = 1"
  using hd_nat_to_digits_zero nat_to_digits_zero by fastforce

lemma parse_number_number:
  assumes "json_follow rest"
  shows "parse_number (js_number_to_string n @ rest) = Some (JNum n, rest)"
proof -
  define ds where "ds = nat_to_digits (nat \<bar>n\<bar>)"
  obtain c ds' where ds: "ds = c # ds'"
    using nat_to_digits_ne [of "nat \<bar>n\<bar>"] unfolding ds_def by (meson neq_Nil_conv)
  have "is_decimal_char c" using ds nat_to_digits_decimal ds_def by (metis list.set_intros(1))
  then have c: "c \<noteq> CHR ''-''" by (rule decimal_char_facts(3))
  have js: "js_number_to_string n = (if n < 0 then CHR ''-'' # ds else ds)"
    by (simp add: js_number_to_string_def ds_def)
  have split: "takeWhile is_dec (ds @ rest) = ds" "dropWhile is_dec (ds @ rest) = rest"
    using dec_digits_split [OF assms] by (simp_all add: ds_def)
  have lead: "\<not> (hd ds = CHR ''0'' \<and> 2 \<le> length ds)"
    using nat_to_digits_leading_zero by (auto simp: ds_def)
  have tail: "\<not> (rest \<noteq> [] \<and> hd rest \<in> {CHR ''.'', CHR ''e'', CHR ''E''})"
    using json_follow_hd [OF assms] by blast
  have v: "(if n < 0 then -1 else 1) * int (digits_to_nat 10 ds) = n"
    by (simp add: ds_def)
  have pre: "(if js_number_to_string n @ rest \<noteq> [] \<and> hd (js_number_to_string n @ rest) = CHR ''-''
      then (True, tl (js_number_to_string n @ rest)) else (False, js_number_to_string n @ rest)) =
      (n < 0, ds @ rest)"
    using c ds by (simp add: js)
  have ne: "ds \<noteq> []" using ds by simp
  show ?thesis
    unfolding parse_number_def pre Let_def prod.case split
    using lead tail v ne by simp
qed

lemma is_dec_not_special: "is_dec c \<Longrightarrow> \<not> json_ws c \<and> c \<noteq> CHR '','' \<and> c \<noteq> CHR '']'' \<and> c \<noteq> CHR ''}''"
  by (auto simp: is_dec_def digit_value_def json_ws_def)

lemma stringify_hd:
  "\<exists>c t. json_stringify j = c # t \<and> \<not> json_ws c \<and> c \<noteq> CHR '','' \<and> c \<noteq> CHR '']'' \<and> c \<noteq> CHR ''}''"
proof (cases j)
  case (JNum n)
  obtain c ds' where ds: "nat_to_digits (nat \<bar>n\<bar>) = c # ds'"
    using nat_to_digits_ne [of "nat \<bar>n\<bar>"] by (meson neq_Nil_conv)
  have "is_decimal_char c" using ds nat_to_digits_decimal by (metis list.set_intros(1))
  then have "is_dec c" using decimal_char_facts(1) by (simp add: is_dec_def)
  then have "\<not> json_ws c \<and> c \<noteq> CHR '','' \<and> c \<noteq> CHR '']'' \<and> c \<noteq> CHR ''}''"
    by (rule is_dec_not_special)
  with JNum ds show ?thesis
    by (cases "n < 0") (auto simp: js_number_to_string_def json_ws_def)
next
  case (JBool b)
  then show ?thesis by (cases b) (auto simp: json_ws_def)
qed (auto simp: json_ws_def json_quote_def)

lemma skip_ws_stringify [simp]: "skip_ws (json_stringify j @ rest) = json_stringify j @ rest"
  using stringify_hd [of j] by (auto simp: skip_ws_def)

lemma skip_ws_follow:
  assumes "json_follow rest"
  shows "skip_ws rest = rest"
proof (cases rest)
  case Nil
  then show ?thesis by (simp add: skip_ws_def)
next
  case (Cons a l)
  with json_follow_hd [OF assms] have "\<not> json_ws a" by simp
  with Cons show ?thesis by (simp add: skip_ws_def)
qed

lemma skip_ws_Cons: "\<not> json_ws c \<Longrightarrow> skip_ws (c # t) = c # t"
  by (simp add: skip_ws_def)

lemma commas_Cons: "\<exists>u. commas (map f (x # xs)) = f x @ u"
  by (cases xs) auto

lemma stringify_not_close:
  "\<not> starts_with (json_stringify j @ rest) [c] \<or> (c \<noteq> CHR '']'' \<and> c \<noteq> CHR ''}'')"
  using stringify_hd [of j] by auto

lemma parse_elems_commas:
  assumes "xs \<noteq> []"
    and "\<forall>x \<in> set xs. \<forall>rest. json_follow rest \<longrightarrow> parse_value (json_stringify x @ rest) = Some (x, rest)"
  shows "parse_elems (commas (map json_stringify xs) @ CHR '']'' # rest) = Some (xs, rest)"
  using assms
proof (induction xs rule: induct_list012)
  case 1
  then show ?case by simp
next
  case (2 x)
  have "parse_value (json_stringify x @ CHR '']'' # rest) = Some (x, CHR '']'' # rest)"
    using "2.prems"(2) by (simp add: json_follow_def)
  then show ?case by (subst parse_elems.simps) (simp add: skip_ws_def json_ws_def)
next
  case (3 x y zs)
  define R where "R = commas (map json_stringify (y # zs)) @ CHR '']'' # rest"
  have eq: "commas (map json_stringify (x # y # zs)) @ CHR '']'' # rest = json_stringify x @ CHR '','' # R"
    by (simp add: R_def)
  have px: "parse_value (json_stringify x @ CHR '','' # R) = Some (x, CHR '','' # R)"
    using "3"(4) by (simp add: json_follow_def)
  have pr: "parse_elems R = Some (y # zs, rest)"
    using "3"(2) "3"(4) by (simp add: R_def)
  have len: "length R < length (json_stringify x @ CHR '','' # R)" by simp
  show ?case
    unfolding eq by (subst parse_elems.simps) (simp add: px pr len skip_ws_def json_ws_def)
qed

lemma parse_members_commas:
  assumes "ms \<noteq> []"
    and "\<forall>(k, v) \<in> set ms. \<forall>rest. json_follow rest \<longrightarrow> parse_value (json_stringify v @ rest) = Some (v, rest)"
  shows "parse_members (commas (map (\<lambda>(k, v). json_quote k @ '':'' @ json_stringify v) ms) @ CHR ''}'' # rest) =
    Some (ms, rest)"
  using assms
proof (induction ms rule: induct_list012)
  case 1
  then show ?case by simp
next
  case (2 m)
  obtain k v where m: "m = (k, v)" by fastforce
  have pv: "parse_value (json_stringify v @ CHR ''}'' # rest) = Some (v, CHR ''}'' # rest)"
    using "2.prems"(2) m by (simp add: json_follow_def)
  show ?case
    by (subst parse_members.simps) (simp add: m json_quote_def pv parse_chars_quoted skip_ws_def json_ws_def)
next
  case (3 m m2 ms)
  obtain k v where m: "m = (k, v)" by fastforce
  define R where "R = commas (map (\<lambda>(k, v). json_quote k @ '':'' @ json_stringify v) (m2 # ms)) @ CHR ''}'' # rest"
  have eq: "commas (map (\<lambda>(k, v). json_quote k @ '':'' @ json_stringify v) (m # m2 # ms)) @ CHR ''}'' # rest =
      json_quote k @ '':'' @ json_stringify v @ CHR '','' # R"
    by (simp add: R_def m)
  have pv: "parse_value (json_stringify v @ CHR '','' # R) = Some (v, CHR '','' # R)"
    using "3"(4) m by (simp add: json_follow_def)
  have pr: "parse_members R = Some (m2 # ms, rest)"
    using "3"(2) "3"(4) by (simp add: R_def)
  show ?case
    unfolding eq
    by (subst parse_members.simps) (simp add: m json_quote_def pv pr parse_chars_quoted skip_ws_def json_ws_def)
qed

lemma number_hd:
  "\<exists>c t. js_number_to_string n = c # t \<and> (c = CHR ''-'' \<or> is_dec c)"
proof -
  obtain c ds' where ds: "nat_to_digits (nat \<bar>n\<bar>) = c # ds'"
    using nat_to_digits_ne [of "nat \<bar>n\<bar>"] by (meson neq_Nil_conv)
  have "is_decimal_char c" using ds nat_to_digits_decimal by (metis list.set_intros(1))
  then have "is_dec c" using decimal_char_facts(1) by (simp add: is_dec_def)
  with ds show ?thesis by (cases "n < 0") (auto simp: js_number_to_string_def)
qed

lemma parse_value_stringify_JArr:
  assumes "\<forall>x \<in> set xs. \<forall>rest. json_follow rest \<longrightarrow> parse_value (json_stringify x @ rest) = Some (x, rest)"
  shows "parse_value (json_stringify (JArr xs) @ rest) = Some (JArr xs, rest)"
proof (cases xs)
  case Nil
  then show ?thesis by (subst parse_value.simps) (simp add: skip_ws_def json_ws_def)
next
  case (Cons x xs')
  obtain u where u: "commas (map json_stringify xs) = json_stringify x @ u"
    using commas_Cons [of json_stringify x xs'] Cons by blast
  have ns: "\<not> starts_with (json_stringify x @ u @ CHR '']'' # rest) '']''"
    using stringify_hd [of x] by auto
  have pe: "parse_elems (commas (map json_stringify xs) @ CHR '']'' # rest) = Some (xs, rest)"
    using Cons assms by (intro parse_elems_commas) auto
  show ?thesis
    using pe ns by (subst parse_value.simps) (simp add: u skip_ws_Cons json_ws_def)
qed

lemma parse_value_stringify_JObj:
  assumes "\<forall>(k, v) \<in> set ms. \<forall>rest. json_follow rest \<longrightarrow> parse_value (json_stringify v @ rest) = Some (v, rest)"
  shows "parse_value (json_stringify (JObj ms) @ rest) = Some (JObj ms, rest)"
proof (cases ms)
  case Nil
  then show ?thesis by (subst parse_value.simps) (simp add: skip_ws_def json_ws_def)
next
  case (Cons m ms')
  obtain k v where m: "m = (k, v)" by fastforce
  let ?f = "\<lambda>(k, v). json_quote k @ '':'' @ json_stringify v"
  obtain u where u: "commas (map ?f ms) = json_quote k @ u"
    using commas_Cons [of ?f m ms'] Cons m by auto
  have pm: "parse_members (commas (map ?f ms) @ CHR ''}'' # rest) = Some (ms, rest)"
    using Cons assms by (intro parse_members_commas) fastforce+
  have pm': "parse_members (CHR 0x22 # concat (map json_escape_char k) @ CHR 0x22 # u @ CHR ''}'' # rest) =
      Some (ms, rest)"
    using pm unfolding u by (simp add: json_quote_def)
  have st: "json_stringify (JObj ms) @ rest =
      CHR ''{'' # CHR 0x22 # concat (map json_escape_char k) @ CHR 0x22 # u @ CHR ''}'' # rest"
    using u by (simp add: json_quote_def)
  show ?thesis
    unfolding st by (subst parse_value.simps) (simp add: pm' skip_ws_Cons json_ws_def)
qed

lemma parse_value_stringify:
  "json_follow rest \<Longrightarrow> parse_value (json_stringify j @ rest) = Some (j, rest)"
proof (induction j arbitrary: rest)
  case JNull
  then show ?case by (subst parse_value.simps) (simp add: skip_ws_def json_ws_def)
next
  case (JBool b)
  then show ?case by (cases b) (subst parse_value.simps, simp add: skip_ws_def json_ws_def)+
next
  case (JNum n)
  obtain c t where ct: "js_number_to_string n = c # t" and c: "c = CHR ''-'' \<or> is_dec c"
    using number_hd by blast
  then have "c \<notin> {CHR ''n'', CHR ''t'', CHR ''f'', CHR 0x22, CHR ''['', CHR ''{''} \<and> \<not> json_ws c"
    by (auto simp: is_dec_def digit_value_def json_ws_def)
  moreover have "parse_number (c # t @ rest) = Some (JNum n, rest)"
    using parse_number_number [OF JNum.prems, of n] ct by simp
  ultimately show ?case
    by (subst parse_value.simps) (simp add: ct skip_ws_def)
next
  case (JStr s)
  then show ?case
    by (subst parse_value.simps) (simp add: json_quote_def parse_chars_quoted skip_ws_def json_ws_def)
next
  case (JArr xs)
  then show ?case by (intro parse_value_stringify_JArr) auto
next
  case (JObj ms)
  then show ?case by (intro parse_value_stringify_JObj) fastforce
qed

theorem JSON_parse_stringify: "JSON_parse (json_stringify j) = Some j"
  using parse_value_stringify [of "[]" j] by (simp add: JSON_parse_def json_follow_def skip_ws_def)

subsection \<open>Texts that are not JSON\<close>

lemma is_dec_digit: "is_dec c \<Longrightarrow> c \<in> set ''0123456789''"
proof -
  have "list_all (\<lambda>c. is_dec c \<longrightarrow> c \<in> set ''0123456789'') (Enum.enum :: char list)"
    by code_simp
  moreover assume "is_dec c"
  ultimately show ?thesis by (auto simp: list_all_iff enum_UNIV)
qed

text \<open>A text whose first non-blank character cannot start a JSON value (no quote,
  bracket, brace, minus sign, digit, or the first letter of a literal) is a
  \<open>SyntaxError\<close>.\<close>

lemma JSON_parse_bad_start:
  assumes "skip_ws s = [] \<or> hd (skip_ws s) \<notin> set ''\"[{-tfn0123456789''"
  shows "JSON_parse s = None"
proof -
  have "parse_value s = None"
  proof (cases "skip_ws s")
    case Nil
    then show ?thesis by (subst parse_value.simps, simp only: Let_def) simp
  next
    case (Cons c r)
    with assms have c: "c \<notin> set ''\"[{-tfn0123456789''" by (simp only: list.sel(1) list.distinct(2) simp_thms)
    have "set ''0123456789'' \<subseteq> set ''\"[{-tfn0123456789''" by (simp only: set_simps) blast
    with c have "\<not> is_dec c" using is_dec_digit [of c] by blast
    then have tw: "takeWhile is_dec (c # r) = []" by simp
    have "c \<noteq> CHR ''-''" using c by (simp only: set_simps insert_iff) blast
    with tw have "parse_number (c # r) = None" by (simp add: parse_number_def)
    with Cons c show ?thesis by (subst parse_value.simps, simp only: Let_def) simp
  qed
  then show ?thesis by (simp add: JSON_parse_def)
qed

end
