(* ===== verification/Snapshot.thy ===== *)
theory Snapshot
  imports Item Json "HOL-Library.Monad_Syntax"
begin

text \<open>
  The snapshot that the save effect writes (\<open>JSON.stringify(inventoryData)\<close>, line 85)
  and its reading back by the mount effect (\<open>JSON.parse(savedData)\<close>, line 13).
  \<open>item_to_json\<close> is the object that \<open>JSON.stringify\<close> sees for a record: its own
  enumerable properties in creation order (the nineteen of the literal, then
  \<open>initialQty\<close> added by the spread), \<open>image\<close> \<open>null\<close> or a string, the ledger an
  array of \<open>{type, qty, date}\<close> objects. \<open>restore_items\<close> reads a parsed value back as
  records, through the option monad. The source stores whatever \<open>JSON.parse\<close>
  returns; the model reads only arrays of complete records and reports any other value
  as a value of another shape (see \<open>parse_saved\<close>).
\<close>

definition entry_to_json :: "ledger_entry \<Rightarrow> json" where
  "entry_to_json e =
     JObj [(''type'', JStr (case type e of IN \<Rightarrow> ''IN'' | OUT \<Rightarrow> ''OUT'')),
           (''qty'', JNum (qty e)), (''date'', JStr (date e))]"

definition item_to_json :: "item \<Rightarrow> json" where
  "item_to_json it =
     JObj [(''materialCode'', JStr (materialCode it)), (''materialName'', JStr (materialName it)),
           (''specification'', JStr (specification it)), (''warehouseName'', JStr (warehouseName it)),
           (''lotNo'', JStr (lotNo it)), (''stockUnit'', JStr (stockUnit it)),
           (''inventoryQty'', JNum (inventoryQty it)), (''inventoryStatus'', JStr (inventoryStatus it)),
           (''inventoryOrg'', JStr (inventoryOrg it)), (''typeOfOwner'', JStr (typeOfOwner it)),
           (''ownerName'', JStr (ownerName it)), (''customerPN'', JStr (customerPN it)),
           (''brand'', JStr (brand it)), (''gram'', JStr (gram it)),
           (''materialGrouping'', JStr (materialGrouping it)), (''customerEndPN'', JStr (customerEndPN it)),
           (''masterDataProperty'', JStr (masterDataProperty it)),
           (''history'', JArr (map entry_to_json (history it))),
           (''image'', (case image it of None \<Rightarrow> JNull | Some s \<Rightarrow> JStr s)),
           (''initialQty'', JNum (initialQty it))]"

definition snapshot :: "item list \<Rightarrow> js_string" where
  "snapshot inventoryData = json_stringify (JArr (map item_to_json inventoryData))"

definition json_prop :: "(js_string \<times> json) list \<Rightarrow> js_string \<Rightarrow> json option" where
  "json_prop ms k = map_of (rev ms) k"

fun json_as_str :: "json \<Rightarrow> js_string option" where
  "json_as_str (JStr s) = Some s"
| "json_as_str _ = None"

fun json_as_int :: "json \<Rightarrow> js_int option" where
  "json_as_int (JNum n) = Some n"
| "json_as_int _ = None"

fun json_as_image :: "json \<Rightarrow> js_string option option" where
  "json_as_image JNull = Some None"
| "json_as_image (JStr s) = Some (Some s)"
| "json_as_image _ = None"

fun json_as_list :: "json \<Rightarrow> json list option" where
  "json_as_list (JArr xs) = Some xs"
| "json_as_list _ = None"

fun json_as_obj :: "json \<Rightarrow> (js_string \<times> json) list option" where
  "json_as_obj (JObj ms) = Some ms"
| "json_as_obj _ = None"

definition txn_type_of :: "js_string \<Rightarrow> txn_type option" where
  "txn_type_of s = (if s = ''IN'' then Some IN else if s = ''OUT'' then Some OUT else None)"

definition entry_of_json :: "json \<Rightarrow> ledger_entry option" where
  "entry_of_json j = do {
     ms \<leftarrow> json_as_obj j;
     t \<leftarrow> json_prop ms ''type'' \<bind> json_as_str \<bind> txn_type_of;
     q \<leftarrow> json_prop ms ''qty'' \<bind> json_as_int;
     d \<leftarrow> json_prop ms ''date'' \<bind> json_as_str;
     Some \<lparr>type = t, qty = q, date = d\<rparr>
   }"

definition str_prop :: "(js_string \<times> json) list \<Rightarrow> js_string \<Rightarrow> js_string option" where
  "str_prop ms k = json_prop ms k \<bind> json_as_str"

definition int_prop :: "(js_string \<times> json) list \<Rightarrow> js_string \<Rightarrow> js_int option" where
  "int_prop ms k = json_prop ms k \<bind> json_as_int"

definition item_of_json :: "json \<Rightarrow> item option" where
  "item_of_json j = do {
     ms \<leftarrow> json_as_obj j;
     a1 \<leftarrow> str_prop ms ''materialCode''; a2 \<leftarrow> str_prop ms ''materialName'';
     a3 \<leftarrow> str_prop ms ''specification''; a4 \<leftarrow> str_prop ms ''warehouseName'';
     a5 \<leftarrow> str_prop ms ''lotNo''; a6 \<leftarrow> str_prop ms ''stockUnit'';
     a7 \<leftarrow> int_prop ms ''inventoryQty''; a8 \<leftarrow> str_prop ms ''inventoryStatus'';
     a9 \<leftarrow> str_prop ms ''inventoryOrg''; a10 \<leftarrow> str_prop ms ''typeOfOwner'';
     a11 \<leftarrow> str_prop ms ''ownerName''; a12 \<leftarrow> str_prop ms ''customerPN'';
     a13 \<leftarrow> str_prop ms ''brand''; a14 \<leftarrow> str_prop ms ''gram'';
     a15 \<leftarrow> str_prop ms ''materialGrouping''; a16 \<leftarrow> str_prop ms ''customerEndPN'';
     a17 \<leftarrow> str_prop ms ''masterDataProperty'';
     hs \<leftarrow> json_prop ms ''history'' \<bind> json_as_list;
     h \<leftarrow> those (map entry_of_json hs);
     im \<leftarrow> json_prop ms ''image'' \<bind> json_as_image;
     q0 \<leftarrow> int_prop ms ''initialQty'';
     Some \<lparr>materialCode = a1, materialName = a2, specification = a3, warehouseName = a4,
           lotNo = a5, stockUnit = a6, inventoryQty = a7, inventoryStatus = a8,
           inventoryOrg = a9, typeOfOwner = a10, ownerName = a11, customerPN = a12,
           brand = a13, gram = a14, materialGrouping = a15, customerEndPN = a16,
           masterDataProperty = a17, history = h, image = im, initialQty = q0\<rparr>
   }"

definition restore_items :: "json \<Rightarrow> item list option" where
  "restore_items j = json_as_list j \<bind> (\<lambda>xs. those (map item_of_json xs))"

lemma entry_of_json_to_json [simp]: "entry_of_json (entry_to_json e) = Some e"
  by (cases e; cases "type e") (simp_all add: entry_of_json_def entry_to_json_def json_prop_def txn_type_of_def)

lemma item_of_json_to_json [simp]: "item_of_json (item_to_json it) = Some it"
  by (cases it) (simp add: item_of_json_def item_to_json_def json_prop_def str_prop_def int_prop_def
      those_map_Some split: option.split)

lemma restore_items_to_json [simp]: "restore_items (JArr (map item_to_json d)) = Some d"
  by (simp add: restore_items_def those_map_Some)

text \<open>C11: the snapshot round trip: \<open>JSON.parse\<close> of the string that
  \<open>JSON.stringify\<close> makes of the store gives back, read as records, exactly the store
  (every field, the whole ledger and the image included).\<close>

theorem snapshot_round_trip: "JSON_parse (snapshot d) \<bind> restore_items = Some d"
  unfolding snapshot_def JSON_parse_stringify by simp

end
