(* ===== verification/AppLifecycle.thy ===== *)
theory AppLifecycle
  imports Store Snapshot
begin

text \<open>
  The component as React runs it (\<open>src/App.jsx\<close>, lines 4--13 and 80--86, and the
  handlers' \<open>setInventoryData\<close> calls): the four \<open>useState\<close> cells as the record
  \<open>app_state\<close>; the runtime as the committed state, the queue of state updates not yet
  rendered, the \<open>localStorage\<close> slot of key \<open>inventoryData\<close> and its quota. An effect
  is a step \<open>runtime \<Rightarrow> app_error + runtime\<close>, \<open>Inl\<close> an exception that nothing
  catches (the component fails). \<open>load_effect\<close> is the mount effect (lines 10--82),
  \<open>save_effect\<close> the save effect (84--86), \<open>rerender\<close> the commit of the queued
  updates (the last one wins, each being a whole array). \<open>mount\<close> is the order React
  uses on the first commit: both effects on the initial state, then a re-render and,
  since \<open>inventoryData\<close> changed, the save effect again; \<open>strict_mount\<close> is the
  development double invocation of StrictMode. \<open>dispatch\<close> runs one user event: a filter
  input sets its cell (lines 187, 192, 200); a store action runs the handler of
  \<open>Store\<close> and, on success, queues its array, re-renders and saves. The image upload's
  \<open>onload\<close> is taken as one step with the handler (no other event in between).
\<close>

datatype app_error = SyntaxError | UnsupportedShape | QuotaExceededError

record app_state =
  searchTerm :: js_string
  filterWarehouse :: js_string
  filterGrouping :: js_string
  inventoryData :: "item list"

definition initial_state :: app_state where
  "initial_state = \<lparr>searchTerm = [], filterWarehouse = [], filterGrouping = [], inventoryData = []\<rparr>"

record runtime =
  committed :: app_state
  queued :: "item list list"
  local_storage :: "js_string option"
  quota :: nat

definition storage_key :: js_string where
  "storage_key = ''inventoryData''"

definition setItem :: "js_string \<Rightarrow> runtime \<Rightarrow> app_error + runtime" where
  "setItem v rt =
     (if length storage_key + length v \<le> quota rt then Inr (rt\<lparr>local_storage := Some v\<rparr>)
      else Inl QuotaExceededError)"

definition parse_saved :: "js_string \<Rightarrow> app_error + item list" where
  "parse_saved s =
     (case JSON_parse s of
       None \<Rightarrow> Inl SyntaxError
     | Some j \<Rightarrow>
         (case restore_items j of
           None \<Rightarrow> Inl UnsupportedShape
         | Some d \<Rightarrow> Inr d))"

definition setInventoryData :: "item list \<Rightarrow> runtime \<Rightarrow> runtime" where
  "setInventoryData d rt = rt\<lparr>queued := queued rt @ [d]\<rparr>"

definition load_effect :: "runtime \<Rightarrow> app_error + runtime" where
  "load_effect rt =
     (case local_storage rt of
       Some savedData \<Rightarrow>
         if savedData \<noteq> [] then
           (case parse_saved savedData of
             Inl e \<Rightarrow> Inl e
           | Inr d \<Rightarrow> Inr (setInventoryData d rt))
         else Inr (setInventoryData initialData rt)
     | None \<Rightarrow> Inr (setInventoryData initialData rt))"

definition save_effect :: "runtime \<Rightarrow> app_error + runtime" where
  "save_effect rt = setItem (snapshot (inventoryData (committed rt))) rt"

definition rerender :: "runtime \<Rightarrow> app_error + runtime" where
  "rerender rt =
     (case queued rt of
       [] \<Rightarrow> Inr rt
     | _ \<Rightarrow> Inr (rt\<lparr>committed := (committed rt)\<lparr>inventoryData := last (queued rt)\<rparr>, queued := []\<rparr>))"

fun run_steps :: "(runtime \<Rightarrow> app_error + runtime) list \<Rightarrow> runtime \<Rightarrow> app_error + runtime" where
  "run_steps [] rt = Inr rt"
| "run_steps (f # fs) rt = (case f rt of Inl e \<Rightarrow> Inl e | Inr rt' \<Rightarrow> run_steps fs rt')"

definition mount :: "runtime \<Rightarrow> app_error + runtime" where
  "mount = run_steps [load_effect, save_effect, rerender, save_effect]"

definition strict_mount :: "runtime \<Rightarrow> app_error + runtime" where
  "strict_mount = run_steps [load_effect, save_effect, load_effect, save_effect, rerender, save_effect]"

datatype ui_event =
    Action store_op
  | SetSearch js_string
  | SetWarehouse js_string
  | SetGrouping js_string

fun dispatch :: "ui_event \<Rightarrow> runtime \<Rightarrow> app_error + runtime" where
  "dispatch (SetSearch s) rt = Inr (rt\<lparr>committed := (committed rt)\<lparr>searchTerm := s\<rparr>\<rparr>)"
| "dispatch (SetWarehouse w) rt = Inr (rt\<lparr>committed := (committed rt)\<lparr>filterWarehouse := w\<rparr>\<rparr>)"
| "dispatch (SetGrouping g) rt = Inr (rt\<lparr>committed := (committed rt)\<lparr>filterGrouping := g\<rparr>\<rparr>)"
| "dispatch (Action op) rt =
     (case store_step (inventoryData (committed rt)) op of
       Inl _ \<Rightarrow> Inr rt
     | Inr d' \<Rightarrow> run_steps [Inr \<circ> setInventoryData d', rerender, save_effect] rt)"

fun run_session :: "runtime \<Rightarrow> ui_event list \<Rightarrow> app_error + runtime" where
  "run_session rt [] = Inr rt"
| "run_session rt (ev # evs) = (case dispatch ev rt of Inl e \<Rightarrow> Inl e | Inr rt' \<Rightarrow> run_session rt' evs)"

definition fresh_runtime :: "js_string option \<Rightarrow> nat \<Rightarrow> runtime" where
  "fresh_runtime saved q = \<lparr>committed = initial_state, queued = [], local_storage = saved, quota = q\<rparr>"

fun actions :: "ui_event list \<Rightarrow> store_op list" where
  "actions [] = []"
| "actions (Action op # evs) = op # actions evs"
| "actions (_ # evs) = actions evs"

definition persisted :: "runtime \<Rightarrow> bool" where
  "persisted rt \<longleftrightarrow> local_storage rt = Some (snapshot (inventoryData (committed rt))) \<and> queued rt = [] \<and>
     length storage_key + length (snapshot (inventoryData (committed rt))) \<le> quota rt"

lemma snapshot_Nil [simp]: "snapshot [] = ''[]''"
  by (simp add: snapshot_def)

lemma snapshot_ne [simp]: "snapshot d \<noteq> []"
  by (simp add: snapshot_def)

lemma parse_saved_snapshot [simp]: "parse_saved (snapshot d) = Inr d"
proof -
  have "JSON_parse (snapshot d) = Some (JArr (map item_to_json d))"
    unfolding snapshot_def by (rule JSON_parse_stringify)
  then show ?thesis by (simp add: parse_saved_def)
qed

lemma save_effect_ok:
  "length storage_key + length (snapshot (inventoryData (committed rt))) \<le> quota rt \<Longrightarrow>
   save_effect rt = Inr (rt\<lparr>local_storage := Some (snapshot (inventoryData (committed rt)))\<rparr>)"
  by (simp add: save_effect_def setItem_def)

lemma rerender_save_persisted:
  "rerender a = Inr b \<Longrightarrow> save_effect b = Inr c \<Longrightarrow> persisted c"
  by (auto simp: rerender_def save_effect_def setItem_def persisted_def split: list.splits if_splits)

lemma dispatch_persisted:
  assumes "persisted rt" and "dispatch ev rt = Inr rt'"
  shows "persisted rt' \<and> quota rt' = quota rt"
  using assms
  by (cases ev)
     (auto simp: persisted_def setInventoryData_def rerender_def save_effect_def setItem_def
        split: sum.splits if_splits)

lemma run_session_persisted:
  "persisted rt \<Longrightarrow> run_session rt evs = Inr rt' \<Longrightarrow> persisted rt'"
proof (induction evs arbitrary: rt)
  case Nil
  then show ?case by simp
next
  case (Cons ev evs)
  then obtain rt1 where d: "dispatch ev rt = Inr rt1" and r: "run_session rt1 evs = Inr rt'"
    by (auto split: sum.splits)
  with Cons.prems dispatch_persisted have "persisted rt1" by blast
  from this r show ?case by (rule Cons.IH)
qed

lemma mount_persisted: "mount rt = Inr rt' \<Longrightarrow> persisted rt'"
  by (auto simp: mount_def split: sum.splits intro: rerender_save_persisted)

lemma length_snapshot: "2 \<le> length (snapshot d)"
  by (simp add: snapshot_def)

lemma mount_snapshot:
  assumes "length storage_key + length (snapshot d) \<le> q"
  shows "mount (fresh_runtime (Some (snapshot d)) q) =
    Inr \<lparr>committed = initial_state\<lparr>inventoryData := d\<rparr>, queued = [], local_storage = Some (snapshot d), quota = q\<rparr>"
proof -
  have "length storage_key + 2 \<le> q" using assms length_snapshot [of d] by linarith
  then show ?thesis
    using assms
    by (simp add: mount_def load_effect_def setInventoryData_def save_effect_def setItem_def rerender_def
        fresh_runtime_def initial_state_def)
qed

text \<open>C10: reloading the page restores exactly what was saved: mounting on a storage that
  holds the snapshot of a store yields that store in memory, saved back unchanged.\<close>

theorem reload_restores_snapshot:
  assumes "length storage_key + length (snapshot d) \<le> q"
  shows "\<exists>rt. mount (fresh_runtime (Some (snapshot d)) q) = Inr rt \<and>
    inventoryData (committed rt) = d \<and> local_storage rt = Some (snapshot d)"
  using mount_snapshot [OF assms] by simp

theorem reload_restores_snapshot_witness:
  "\<exists>rt. mount (fresh_runtime (Some (snapshot [initialData ! 0])) (13 + length (snapshot [initialData ! 0]))) = Inr rt \<and>
    inventoryData (committed rt) = [initialData ! 0] \<and> local_storage rt = Some (snapshot [initialData ! 0])"
proof -
  have "length storage_key + length (snapshot [initialData ! 0]) \<le> 13 + length (snapshot [initialData ! 0])"
    by (simp add: storage_key_def)
  then show ?thesis by (rule reload_restores_snapshot)
qed

text \<open>C9: persistence is write-through: after mounting and any sequence of user
  actions that does not crash the app, the storage holds the snapshot of exactly the
  data in memory, no update is pending, and reloading from that storage brings back the
  same data.\<close>

theorem session_write_through:
  assumes "mount rt0 = Inr rt1" and "run_session rt1 evs = Inr rt2"
  shows "local_storage rt2 = Some (snapshot (inventoryData (committed rt2))) \<and> queued rt2 = [] \<and>
    (\<exists>rt3. mount (fresh_runtime (local_storage rt2) (quota rt2)) = Inr rt3 \<and>
       inventoryData (committed rt3) = inventoryData (committed rt2))"
proof -
  have p: "persisted rt2"
    using run_session_persisted [OF mount_persisted [OF assms(1)] assms(2)] .
  then have "mount (fresh_runtime (local_storage rt2) (quota rt2)) =
      Inr \<lparr>committed = initial_state\<lparr>inventoryData := inventoryData (committed rt2)\<rparr>, queued = [],
        local_storage = Some (snapshot (inventoryData (committed rt2))), quota = quota rt2\<rparr>"
    unfolding persisted_def using mount_snapshot by auto
  with p show ?thesis by (simp add: persisted_def)
qed

theorem session_write_through_witness:
  "local_storage \<lparr>committed = initial_state\<lparr>inventoryData := [stock_in_item (initialData ! 0) 5 ''t'']\<rparr>,
      queued = [], local_storage = Some (snapshot [stock_in_item (initialData ! 0) 5 ''t'']),
      quota = 13 + length (snapshot [initialData ! 0]) + length (snapshot [stock_in_item (initialData ! 0) 5 ''t''])\<rparr> =
     Some (snapshot [stock_in_item (initialData ! 0) 5 ''t'']) \<and>
   (\<exists>rt3. mount (fresh_runtime (Some (snapshot [stock_in_item (initialData ! 0) 5 ''t'']))
       (13 + length (snapshot [initialData ! 0]) + length (snapshot [stock_in_item (initialData ! 0) 5 ''t'']))) = Inr rt3 \<and>
     inventoryData (committed rt3) = [stock_in_item (initialData ! 0) 5 ''t''])"
proof -
  let ?x = "initialData ! 0"
  let ?d1 = "[stock_in_item ?x 5 ''t'']"
  let ?Q = "13 + length (snapshot [?x]) + length (snapshot ?d1)"
  let ?rt1 = "\<lparr>committed = initial_state\<lparr>inventoryData := [?x]\<rparr>, queued = [],
      local_storage = Some (snapshot [?x]), quota = ?Q\<rparr>"
  let ?rt2 = "\<lparr>committed = initial_state\<lparr>inventoryData := ?d1\<rparr>, queued = [],
      local_storage = Some (snapshot ?d1), quota = ?Q\<rparr>"
  have m: "mount (fresh_runtime (Some (snapshot [?x])) ?Q) = Inr ?rt1"
    by (rule mount_snapshot) (simp add: storage_key_def)
  have r: "run_session ?rt1 [Action (StockIn 0 (Some ''5'') ''t'')] = Inr ?rt2"
    by (simp add: handleStockIn_def read_qty_5 setInventoryData_def rerender_def save_effect_def
        setItem_def storage_key_def initial_state_def)
  show ?thesis using session_write_through [OF m r] by simp
qed

lemma dispatch_data:
  assumes "persisted rt" and "dispatch ev rt = Inr rt'"
  shows "inventoryData (committed rt') = run_ops (inventoryData (committed rt)) (actions [ev])"
  using assms
  by (cases ev)
     (auto simp: persisted_def apply_op_def setInventoryData_def rerender_def save_effect_def setItem_def
        split: sum.splits if_splits)

lemma run_session_data:
  "persisted rt \<Longrightarrow> run_session rt evs = Inr rt' \<Longrightarrow>
   inventoryData (committed rt') = run_ops (inventoryData (committed rt)) (actions evs)"
proof (induction evs arbitrary: rt)
  case Nil
  then show ?case by simp
next
  case (Cons ev evs)
  then obtain rt1 where d: "dispatch ev rt = Inr rt1" and r: "run_session rt1 evs = Inr rt'"
    by (auto split: sum.splits)
  have p1: "persisted rt1" using dispatch_persisted [OF Cons.prems(1) d] by simp
  have "actions (ev # evs) = actions [ev] @ actions evs" by (cases ev) simp_all
  then show ?case
    using dispatch_data [OF Cons.prems(1) d] Cons.IH [OF p1 r] by simp
qed

lemma rerender_snoc:
  "rerender (rt\<lparr>queued := xs @ [d]\<rparr>) = Inr (rt\<lparr>committed := (committed rt)\<lparr>inventoryData := d\<rparr>, queued := []\<rparr>)"
  by (simp add: rerender_def list.case_eq_if)

lemma mount_seed:
  assumes "length storage_key + length (snapshot initialData) \<le> q" and "s = None \<or> s = Some []"
  shows "mount (fresh_runtime s q) =
    Inr \<lparr>committed = initial_state\<lparr>inventoryData := initialData\<rparr>, queued = [],
      local_storage = Some (snapshot initialData), quota = q\<rparr>"
proof -
  have "length storage_key + 2 \<le> q" using assms length_snapshot [of initialData] by linarith
  then show ?thesis
    using assms
    by (auto simp: mount_def load_effect_def setInventoryData_def save_effect_def setItem_def rerender_def
        fresh_runtime_def initial_state_def)
qed

text \<open>C12: on a first visit (nothing saved) the component seeds the store with
  \<open>initialData\<close> and, through any session that does not crash, every record keeps the
  ledger invariant: its quantity is its initial quantity plus the signed sum of its
  history, it is never negative, and every ledger entry is positive.\<close>

theorem first_visit_session_ok:
  assumes "mount (fresh_runtime None q) = Inr rt1" and "run_session rt1 evs = Inr rt2"
  shows "store_ok (inventoryData (committed rt2))"
proof -
  have "inventoryData (committed rt1) = initialData"
    using assms(1)
    by (auto simp: mount_def load_effect_def setInventoryData_def save_effect_def setItem_def rerender_def
        fresh_runtime_def split: sum.splits if_splits)
  then show ?thesis
    using run_session_data [OF mount_persisted [OF assms(1)] assms(2)]
    by (simp add: run_ops_store_ok store_ok_initialData)
qed

theorem first_visit_session_ok_witness:
  "store_ok (inventoryData (committed \<lparr>committed = initial_state\<lparr>inventoryData := initialData\<rparr>, queued = [],
      local_storage = Some (snapshot initialData), quota = 13 + length (snapshot initialData)\<rparr>))"
proof -
  have m: "mount (fresh_runtime None (13 + length (snapshot initialData))) =
    Inr \<lparr>committed = initial_state\<lparr>inventoryData := initialData\<rparr>, queued = [],
      local_storage = Some (snapshot initialData), quota = 13 + length (snapshot initialData)\<rparr>"
    by (rule mount_seed) (simp_all add: storage_key_def)
  show ?thesis using first_visit_session_ok [OF m run_session.simps(1)] .
qed

text \<open>C21: the save effect runs before the re-render that commits the loaded data, so
  the first write of every mount replaces the saved snapshot by the empty array
  \<open>"[]"\<close>; until the next save the storage holds no record at all.\<close>

theorem mount_first_save_writes_empty:
  assumes "length storage_key + 2 \<le> q"
  shows "run_steps [load_effect, save_effect] (fresh_runtime (Some (snapshot d)) q) =
    Inr \<lparr>committed = initial_state, queued = [d], local_storage = Some ''[]'', quota = q\<rparr>"
  using assms
  by (simp add: load_effect_def setInventoryData_def save_effect_def setItem_def fresh_runtime_def
      initial_state_def)

theorem mount_first_save_writes_empty_witness:
  "run_steps [load_effect, save_effect] (fresh_runtime (Some (snapshot [initialData ! 0])) 15) =
    Inr \<lparr>committed = initial_state, queued = [[initialData ! 0]], local_storage = Some ''[]'', quota = 15\<rparr>"
  by (rule mount_first_save_writes_empty) (simp add: storage_key_def)

text \<open>C20: under the development double invocation of effects (React StrictMode: mount,
  simulated unmount, mount again, before the first re-render) the second load reads
  the \<open>"[]"\<close> the first save wrote, so the store is always wiped: on a first visit
  the seed data, on a later one the saved data. The component ends with no record in
  memory and \<open>"[]"\<close> in storage.\<close>

theorem strict_mount_wipes_store:
  assumes "length storage_key + 2 \<le> q"
  shows "strict_mount (fresh_runtime None q) =
      Inr \<lparr>committed = initial_state, queued = [], local_storage = Some ''[]'', quota = q\<rparr> \<and>
    strict_mount (fresh_runtime (Some (snapshot d)) q) =
      Inr \<lparr>committed = initial_state, queued = [], local_storage = Some ''[]'', quota = q\<rparr>"
proof -
  have "parse_saved ''[]'' = Inr []" using parse_saved_snapshot [of "[]"] by simp
  then show ?thesis
    using assms
    by (simp add: strict_mount_def load_effect_def setInventoryData_def save_effect_def setItem_def
        rerender_def fresh_runtime_def initial_state_def)
qed

theorem strict_mount_wipes_store_witness:
  "strict_mount (fresh_runtime None 15) =
      Inr \<lparr>committed = initial_state, queued = [], local_storage = Some ''[]'', quota = 15\<rparr> \<and>
    strict_mount (fresh_runtime (Some (snapshot [initialData ! 2])) 15) =
      Inr \<lparr>committed = initial_state, queued = [], local_storage = Some ''[]'', quota = 15\<rparr>"
  by (rule strict_mount_wipes_store) (simp add: storage_key_def)

text \<open>C19: a save that does not fit in the storage quota is not a warning: the
  \<open>QuotaExceededError\<close> thrown by \<open>localStorage.setItem\<close> inside the save effect is
  uncaught and the whole component fails, although the action itself succeeded.\<close>

theorem save_failure_crashes_app:
  assumes "store_step (inventoryData (committed rt)) op = Inr d'"
    and "quota rt < length storage_key + length (snapshot d')"
  shows "dispatch (Action op) rt = Inl QuotaExceededError"
  using assms by (simp add: setInventoryData_def rerender_snoc save_effect_def setItem_def)

theorem save_failure_crashes_app_witness:
  "dispatch (Action (ImageUpload 0 (Some ''a'')))
     \<lparr>committed = initial_state\<lparr>inventoryData := [initialData ! 0]\<rparr>, queued = [], local_storage = None, quota = 0\<rparr>
   = Inl QuotaExceededError"
proof (rule save_failure_crashes_app)
  show "store_step (inventoryData (committed \<lparr>committed = initial_state\<lparr>inventoryData := [initialData ! 0]\<rparr>,
      queued = [], local_storage = None, quota = 0\<rparr>)) (ImageUpload 0 (Some ''a'')) =
    Inr [(initialData ! 0)\<lparr>image := Some ''a''\<rparr>]"
    by (simp add: handleImageUpload_def)
  show "quota \<lparr>committed = initial_state\<lparr>inventoryData := [initialData ! 0]\<rparr>, queued = [],
      local_storage = None, quota = 0\<rparr> < length storage_key + length (snapshot [(initialData ! 0)\<lparr>image := Some ''a''\<rparr>])"
    by (simp add: storage_key_def)
qed

text \<open>C22: a saved value that is not JSON, here one whose first non-blank character
  cannot start a JSON value (the string \<open>undefined\<close>, a bare word, a truncated write),
  makes \<open>JSON.parse\<close> throw a \<open>SyntaxError\<close> in the mount effect; nothing catches
  it, so the component never shows any data (the specification does not say what a
  corrupt snapshot should do).\<close>

theorem corrupt_storage_crashes_mount:
  assumes "s \<noteq> []" and "skip_ws s = [] \<or> hd (skip_ws s) \<notin> set ''\"[{-tfn0123456789''"
  shows "mount (fresh_runtime (Some s) q) = Inl SyntaxError"
  using assms JSON_parse_bad_start [OF assms(2)]
  by (simp add: mount_def load_effect_def parse_saved_def fresh_runtime_def)

theorem corrupt_storage_crashes_mount_witness:
  "mount (fresh_runtime (Some ''undefined'') 100) = Inl SyntaxError"
  by (rule corrupt_storage_crashes_mount) (simp_all add: skip_ws_def json_ws_def)

text \<open>C30: with nothing saved (or an empty string, which \<open>if (savedData)\<close> treats as
  nothing), the mount seeds the store with the three records of the literal, each with
  \<open>initialQty\<close> equal to its starting \<open>inventoryQty\<close> and an empty ledger, and saves
  their snapshot.\<close>

theorem mount_seeds_initialData:
  assumes "length storage_key + length (snapshot initialData) \<le> q" and "s = None \<or> s = Some []"
  shows "\<exists>rt. mount (fresh_runtime s q) = Inr rt \<and> inventoryData (committed rt) = initialData \<and>
    local_storage rt = Some (snapshot initialData) \<and> length (inventoryData (committed rt)) = 3 \<and>
    list_all (\<lambda>it. initialQty it = inventoryQty it \<and> history it = []) (inventoryData (committed rt))"
proof -
  have "list_all (\<lambda>it. initialQty it = inventoryQty it \<and> history it = []) initialData"
    by (simp add: initialData_def seed_raw_items_def)
  moreover have "length initialData = 3" by (simp add: initialData_def seed_raw_items_def)
  ultimately show ?thesis using mount_seed [OF assms] by simp
qed

theorem mount_seeds_initialData_witness:
  "\<exists>rt. mount (fresh_runtime (Some []) (13 + length (snapshot initialData))) = Inr rt \<and>
    inventoryData (committed rt) = initialData \<and>
    local_storage rt = Some (snapshot initialData) \<and> length (inventoryData (committed rt)) = 3 \<and>
    list_all (\<lambda>it. initialQty it = inventoryQty it \<and> history it = []) (inventoryData (committed rt))"
  by (rule mount_seeds_initialData) (simp_all add: storage_key_def)

end
