(* ===== verification/Heap.thy ===== *)
theory Heap
  imports Store "HOL-Library.Multiset"
begin

text \<open>
  The handlers of \<open>src/App.jsx\<close> as JavaScript runs them on objects. A record is an
  object on the heap (\<open>heap\<close>, addresses to records) and \<open>inventoryData\<close> is an
  array of references to such objects. \<open>[...inventoryData]\<close> (lines 107, 117, 157)
  copies the array, that is the list of addresses, and the updates of lines 108--109,
  118--119 and 158 write through it into the shared record objects. The image upload
  is asynchronous: \<open>handleImageUpload\<close> (line 152) starts a \<open>FileReader\<close> and the
  \<open>onload\<close> callback (lines 156--160) runs later, on the \<open>inventoryData\<close> of the
  render in which the upload started. \<open>h_step\<close> is the step relation of the
  program: stock moves on the current array, the start of a read (a closure joins the
  pending reads) and the completion of any pending read, in any order, each labelled
  with the operations of \<open>Store\<close> it performs; \<open>h_run\<close> strings steps into a run
  and collects their labels. The value model of \<open>Store\<close> is recovered through
  \<open>deref\<close>.
\<close>

type_synonym addr = nat

type_synonym heap = "addr \<rightharpoonup> item"

record heap_state =
  data :: "addr list"
  mem :: heap
  pending :: "(addr list \<times> nat \<times> js_string) list"

definition deref :: "heap \<Rightarrow> addr list \<Rightarrow> item list option" where
  "deref h arr = those (map h arr)"

definition heap_ok :: "heap \<Rightarrow> addr list \<Rightarrow> bool" where
  "heap_ok h arr \<longleftrightarrow> distinct arr \<and> set arr \<subseteq> dom h"

text \<open>\<open>updatedData[index]\<close>: \<open>undefined\<close> past the end of the array, and a property
  access on it throws.\<close>

definition record_at :: "heap \<Rightarrow> addr list \<Rightarrow> nat \<Rightarrow> (addr \<times> item) option" where
  "record_at h arr index =
     (if index < length arr then map_option (Pair (arr ! index)) (h (arr ! index)) else None)"

definition handleStockIn_h ::
  "addr list \<Rightarrow> heap \<Rightarrow> nat \<Rightarrow> js_string option \<Rightarrow> js_string \<Rightarrow> store_error + addr list \<times> heap" where
  "handleStockIn_h inventoryData h index answer now =
     (case read_qty answer of
       None \<Rightarrow> Inl InvalidQuantity
     | Some q \<Rightarrow>
         if q = 0 \<or> q \<le> 0 then Inl InvalidQuantity
         else (let updatedData = inventoryData in
           case record_at h updatedData index of
             None \<Rightarrow> Inl TypeError
           | Some (r, it) \<Rightarrow> Inr (updatedData, h(r \<mapsto> stock_in_item it q now))))"

definition handleStockOut_h ::
  "addr list \<Rightarrow> heap \<Rightarrow> nat \<Rightarrow> js_string option \<Rightarrow> js_string \<Rightarrow> store_error + addr list \<times> heap" where
  "handleStockOut_h inventoryData h index answer now =
     (case read_qty answer of
       None \<Rightarrow> Inl InvalidQuantity
     | Some q \<Rightarrow>
         if q = 0 \<or> q \<le> 0 then Inl InvalidQuantity
         else (case record_at h inventoryData index of
           None \<Rightarrow> Inl TypeError
         | Some (r, it) \<Rightarrow>
             if q > inventoryQty it then Inl InsufficientStock
             else (let updatedData = inventoryData in
               Inr (updatedData, h(r \<mapsto> stock_out_item it q now)))))"

text \<open>The start of an upload: no file returns early; otherwise the read is pending,
  with the closure's \<open>inventoryData\<close>, the index and the data URL the read yields.\<close>

definition handleImageUpload_h ::
  "addr list \<Rightarrow> nat \<Rightarrow> js_string option \<Rightarrow> store_error + addr list \<times> nat \<times> js_string" where
  "handleImageUpload_h inventoryData index file_result =
     (case file_result of
       None \<Rightarrow> Inl NoFileSelected
     | Some result \<Rightarrow> Inr (inventoryData, index, result))"

definition image_onload_h ::
  "addr list \<times> nat \<times> js_string \<Rightarrow> heap \<Rightarrow> store_error + addr list \<times> heap" where
  "image_onload_h p h =
     (case p of (inventoryData, index, result) \<Rightarrow>
       (let updatedData = inventoryData in
        case record_at h updatedData index of
          None \<Rightarrow> Inl TypeError
        | Some (r, it) \<Rightarrow> Inr (updatedData, h(r \<mapsto> it\<lparr>image := Some result\<rparr>))))"

text \<open>The steps are labelled with the operation of the value model they perform: a
  stock move (done, or refused with the state unchanged) when its handler runs, an
  image upload when its \<open>onload\<close> callback runs (or at once when no file was
  chosen); the start of a read performs nothing yet.\<close>

inductive h_step :: "heap_state \<Rightarrow> store_op list \<Rightarrow> heap_state \<Rightarrow> bool" where
  stock_in: "handleStockIn_h (data s) (mem s) i a now = Inr (arr', h') \<Longrightarrow>
    h_step s [StockIn i a now] (s\<lparr>data := arr', mem := h'\<rparr>)"
| stock_in_fails: "handleStockIn_h (data s) (mem s) i a now = Inl e \<Longrightarrow>
    h_step s [StockIn i a now] s"
| stock_out: "handleStockOut_h (data s) (mem s) i a now = Inr (arr', h') \<Longrightarrow>
    h_step s [StockOut i a now] (s\<lparr>data := arr', mem := h'\<rparr>)"
| stock_out_fails: "handleStockOut_h (data s) (mem s) i a now = Inl e \<Longrightarrow>
    h_step s [StockOut i a now] s"
| image_start: "handleImageUpload_h (data s) i f = Inr p \<Longrightarrow>
    h_step s [] (s\<lparr>pending := pending s @ [p]\<rparr>)"
| image_no_file: "handleImageUpload_h (data s) i f = Inl e \<Longrightarrow>
    h_step s [ImageUpload i f] s"
| image_load: "pending s = ps1 @ (arr0, i, r) # ps2 \<Longrightarrow> image_onload_h (arr0, i, r) (mem s) = Inr (arr', h') \<Longrightarrow>
    h_step s [ImageUpload i (Some r)] (s\<lparr>data := arr', mem := h', pending := ps1 @ ps2\<rparr>)"
| image_load_fails: "pending s = ps1 @ (arr0, i, r) # ps2 \<Longrightarrow> image_onload_h (arr0, i, r) (mem s) = Inl e \<Longrightarrow>
    h_step s [ImageUpload i (Some r)] (s\<lparr>pending := ps1 @ ps2\<rparr>)"

text \<open>A run: the steps in the order they happen, and the operations they perform.\<close>

inductive h_run :: "heap_state \<Rightarrow> store_op list \<Rightarrow> heap_state \<Rightarrow> bool" where
  run_nil: "h_run s [] s"
| run_step: "h_run s ops s1 \<Longrightarrow> h_step s1 l s2 \<Longrightarrow> h_run s (ops @ l) s2"

text \<open>The operation a pending read performs when it completes.\<close>

definition read_op :: "addr list \<times> nat \<times> js_string \<Rightarrow> store_op" where
  "read_op p = (case p of (_, i, r) \<Rightarrow> ImageUpload i (Some r))"

text \<open>A freshly created array of fresh objects (the seed of lines 15--79, or the result
  of \<open>JSON.parse\<close>): the records at addresses \<open>0, 1, ...\<close>.\<close>

definition heap_of :: "item list \<Rightarrow> heap_state" where
  "heap_of d = \<lparr>data = [0..<length d], mem = map_of (zip [0..<length d] d), pending = []\<rparr>"

definition h_inv :: "heap_state \<Rightarrow> bool" where
  "h_inv s \<longleftrightarrow> heap_ok (mem s) (data s) \<and> list_all (\<lambda>(arr0, _, _). arr0 = data s) (pending s) \<and>
     (case deref (mem s) (data s) of None \<Rightarrow> False | Some d \<Rightarrow> store_ok d)"

text \<open>On an array of distinct records, a handler on the heap gives the same error as the
  value handler, or writes one record, keeps the array, and reads back as the value
  handler's result.\<close>

abbreviation writes_one :: "addr list \<Rightarrow> heap \<Rightarrow> store_error + addr list \<times> heap \<Rightarrow> item list \<Rightarrow> store_error + item list \<Rightarrow> bool" where
  "writes_one arr h res d res_v \<equiv>
     (case res of
       Inl e \<Rightarrow> res_v = Inl e
     | Inr (arr', h') \<Rightarrow> arr' = arr \<and>
         (\<exists>i x. i < length arr \<and> h' = h(arr ! i \<mapsto> x) \<and> res_v = Inr (d[i := x])))"

subsection \<open>Reading the heap as the value model\<close>

lemma deref_Some_iff:
  "deref h arr = Some d \<longleftrightarrow> length d = length arr \<and> (\<forall>i < length arr. h (arr ! i) = Some (d ! i))"
proof (induction arr arbitrary: d)
  case Nil
  then show ?case by (auto simp: deref_def)
next
  case (Cons r arr)
  show ?case
  proof
    assume "deref h (r # arr) = Some d"
    then obtain x d' where "h r = Some x" "deref h arr = Some d'" "d = x # d'"
      by (auto simp: deref_def split: option.splits)
    with Cons.IH [of d'] show "length d = length (r # arr) \<and> (\<forall>i < length (r # arr). h ((r # arr) ! i) = Some (d ! i))"
      by (auto simp: nth_Cons split: nat.split)
  next
    assume a: "length d = length (r # arr) \<and> (\<forall>i < length (r # arr). h ((r # arr) ! i) = Some (d ! i))"
    then obtain x d' where d: "d = x # d'" by (cases d) auto
    from a d have "h r = Some x" by auto
    moreover from a d have "deref h arr = Some d'"
      using Cons.IH [of d'] by (auto dest: spec [of _ "Suc _"])
    ultimately show "deref h (r # arr) = Some d" using d by (simp add: deref_def)
  qed
qed

lemma deref_update:
  assumes "deref h arr = Some d" and "distinct arr" and "i < length arr"
  shows "deref (h(arr ! i \<mapsto> x)) arr = Some (d[i := x])"
  using assms by (auto simp: deref_Some_iff nth_list_update nth_eq_iff_index_eq)

lemma record_at_deref:
  "deref h arr = Some d \<Longrightarrow>
   record_at h arr i = (if i < length arr then Some (arr ! i, d ! i) else None)"
  by (simp add: record_at_def deref_Some_iff)

lemma heap_ok_update: "heap_ok h arr \<Longrightarrow> i < length arr \<Longrightarrow> heap_ok (h(arr ! i \<mapsto> x)) arr"
  by (auto simp: heap_ok_def)

lemma deref_heap_ok: "heap_ok h arr \<Longrightarrow> \<exists>d. deref h arr = Some d"
proof -
  assume "heap_ok h arr"
  then have "\<forall>i < length arr. \<exists>x. h (arr ! i) = Some x" by (auto simp: heap_ok_def dom_def dest!: nth_mem)
  then obtain f where "\<forall>i < length arr. h (arr ! i) = Some (f i)" by metis
  then have "deref h arr = Some (map f [0..<length arr])" by (simp add: deref_Some_iff)
  then show ?thesis ..
qed

subsection \<open>Each handler on the heap is the value handler\<close>

lemma handleStockIn_h_writes_one:
  assumes "deref h arr = Some d"
  shows "writes_one arr h (handleStockIn_h arr h i a now) d (handleStockIn d i a now)"
proof -
  have l: "length d = length arr" using assms by (simp add: deref_Some_iff)
  show ?thesis
    using assms l
    by (auto simp: handleStockIn_h_def handleStockIn_def record_at_deref
        split: option.split)
qed

lemma handleStockOut_h_writes_one:
  assumes "deref h arr = Some d"
  shows "writes_one arr h (handleStockOut_h arr h i a now) d (handleStockOut d i a now)"
proof -
  have l: "length d = length arr" using assms by (simp add: deref_Some_iff)
  show ?thesis
    using assms l
    by (auto simp: handleStockOut_h_def handleStockOut_def record_at_deref
        split: option.split)
qed

lemma image_onload_h_writes_one:
  assumes "deref h arr = Some d"
  shows "writes_one arr h (image_onload_h (arr, i, r) h) d (handleImageUpload d i (Some r))"
proof -
  have l: "length d = length arr" using assms by (simp add: deref_Some_iff)
  show ?thesis
    using assms l
    by (auto simp: image_onload_h_def handleImageUpload_def record_at_deref)
qed

lemma writes_one_Inr:
  assumes "writes_one arr h res d res_v" and "res = Inr (arr', h')"
    and "heap_ok h arr" and "deref h arr = Some d"
  shows "arr' = arr \<and> heap_ok h' arr \<and> (\<exists>d'. res_v = Inr d' \<and> deref h' arr = Some d')"
  using assms
  by (auto simp: heap_ok_def deref_update heap_ok_update)

lemma writes_one_Inl:
  "writes_one arr h res d res_v \<Longrightarrow> res = Inl e \<Longrightarrow> res_v = Inl e"
  by simp

subsection \<open>The step relation simulates the value model\<close>

lemma h_invD:
  assumes "h_inv s"
  obtains d where "deref (mem s) (data s) = Some d" and "store_ok d" and "heap_ok (mem s) (data s)"
    and "list_all (\<lambda>(arr0, _, _). arr0 = data s) (pending s)"
  using assms by (auto simp: h_inv_def split: option.splits)

lemma store_step_run_ops: "store_step d op = Inr d' \<Longrightarrow> run_ops d [op] = d'"
  by (simp add: apply_op_def)

text \<open>A step that writes one record, keeps the array and drops pending reads performs
  the value step it reads as, and keeps the invariant.\<close>

lemma h_write_sim:
  assumes "h_inv s" and d: "deref (mem s) (data s) = Some d" and st: "store_step d op = Inr d'"
    and "heap_ok h' (data s)" and dd: "deref h' (data s) = Some d'"
    and "set ps \<subseteq> set (pending s)" and s': "s' = s\<lparr>data := data s, mem := h', pending := ps\<rparr>"
  shows "h_inv s' \<and> data s' = data s \<and> deref (mem s') (data s') = Some (run_ops d [op])"
proof -
  from assms(1) have "store_ok d" and "list_all (\<lambda>(arr0, _, _). arr0 = data s) (pending s)"
    using d by (auto elim: h_invD)
  with assms have "h_inv s'" by (auto simp: h_inv_def list_all_iff intro: store_step_store_ok)
  then show ?thesis using dd store_step_run_ops [OF st] by (simp add: s')
qed

lemma h_step_sim:
  assumes "h_inv s" and "h_step s l s'" and d: "deref (mem s) (data s) = Some d"
  shows "h_inv s' \<and> data s' = data s \<and> deref (mem s') (data s') = Some (run_ops d l)"
proof -
  have ok: "heap_ok (mem s) (data s)" and pend: "list_all (\<lambda>(arr0, _, _). arr0 = data s) (pending s)"
    using assms(1) by (auto elim: h_invD)
  note step_write = h_write_sim [OF assms(1) d]
  from assms(2) show ?thesis
  proof (cases rule: h_step.cases)
    case (stock_in i a now arr' h')
    then obtain d' where "arr' = data s" and "heap_ok h' (data s)"
      and "store_step d (StockIn i a now) = Inr d'" and "deref h' (data s) = Some d'"
      using writes_one_Inr [OF handleStockIn_h_writes_one [OF d] stock_in(3) ok d] by auto
    with stock_in have "h_inv s' \<and> data s' = data s \<and> deref (mem s') (data s') = Some (run_ops d [StockIn i a now])"
      by (intro step_write [where h' = h' and ps = "pending s"]) simp_all
    with stock_in(1) show ?thesis by auto
  next
    case (stock_in_fails i a now e)
    then have "store_step d (StockIn i a now) = Inl e"
      using handleStockIn_h_writes_one [OF d, of i a now] by simp
    with stock_in_fails assms(1) d show ?thesis by (simp add: apply_op_def)
  next
    case (stock_out i a now arr' h')
    then obtain d' where "arr' = data s" and "heap_ok h' (data s)"
      and "store_step d (StockOut i a now) = Inr d'" and "deref h' (data s) = Some d'"
      using writes_one_Inr [OF handleStockOut_h_writes_one [OF d] stock_out(3) ok d] by auto
    with stock_out have "h_inv s' \<and> data s' = data s \<and> deref (mem s') (data s') = Some (run_ops d [StockOut i a now])"
      by (intro step_write [where h' = h' and ps = "pending s"]) simp_all
    with stock_out(1) show ?thesis by auto
  next
    case (stock_out_fails i a now e)
    then have "store_step d (StockOut i a now) = Inl e"
      using handleStockOut_h_writes_one [OF d, of i a now] by simp
    with stock_out_fails assms(1) d show ?thesis by (simp add: apply_op_def)
  next
    case (image_start i f p)
    then have "fst p = data s" by (auto simp: handleImageUpload_h_def split: option.splits)
    with image_start assms(1) d show ?thesis
      by (auto simp: h_inv_def split: prod.splits)
  next
    case (image_no_file i f e)
    then have "store_step d (ImageUpload i f) = Inl e"
      by (simp add: handleImageUpload_h_def handleImageUpload_def split: option.splits)
    with image_no_file assms(1) d show ?thesis by (simp add: apply_op_def)
  next
    case (image_load ps1 arr0 i r ps2 arr' h')
    with pend have "arr0 = data s" by auto
    with image_load have ld: "image_onload_h (data s, i, r) (mem s) = Inr (arr', h')" by simp
    obtain d' where "arr' = data s" and "heap_ok h' (data s)"
      and "store_step d (ImageUpload i (Some r)) = Inr d'" and "deref h' (data s) = Some d'"
      using writes_one_Inr [OF image_onload_h_writes_one [OF d] ld ok d] by auto
    with image_load have "h_inv s' \<and> data s' = data s \<and> deref (mem s') (data s') = Some (run_ops d [ImageUpload i (Some r)])"
      by (intro step_write [where h' = h' and ps = "ps1 @ ps2"]) auto
    with image_load(1) show ?thesis by auto
  next
    case (image_load_fails ps1 arr0 i r ps2 e)
    with pend have "arr0 = data s" by auto
    with image_load_fails have "store_step d (ImageUpload i (Some r)) = Inl e"
      using image_onload_h_writes_one [OF d, of i r] by simp
    with image_load_fails assms(1) d show ?thesis
      by (auto simp: h_inv_def list_all_iff apply_op_def)
  qed
qed

lemma h_run_sim:
  assumes "h_run s ops s'" and "h_inv s" and "deref (mem s) (data s) = Some d"
  shows "h_inv s' \<and> data s' = data s \<and> deref (mem s') (data s') = Some (run_ops d ops)"
  using assms
proof (induction rule: h_run.induct)
  case (run_nil s)
  then show ?case by simp
next
  case (run_step s ops s1 l s2)
  then have inv1: "h_inv s1" and ds1: "data s1 = data s"
    and d1: "deref (mem s1) (data s1) = Some (run_ops d ops)" by auto
  have "h_inv s2 \<and> data s2 = data s1 \<and> deref (mem s2) (data s2) = Some (run_ops (run_ops d ops) l)"
    by (rule h_step_sim [OF inv1 run_step.hyps(2) d1])
  with ds1 show ?case by auto
qed

lemma h_run_single: "h_step s l s' \<Longrightarrow> h_run s l s'"
  using h_run.run_step [OF h_run.run_nil] by simp

lemma h_run_trans: "h_run s1 ops2 s2 \<Longrightarrow> h_run s0 ops1 s1 \<Longrightarrow> h_run s0 (ops1 @ ops2) s2"
proof (induction rule: h_run.induct)
  case (run_nil s)
  then show ?case by simp
next
  case (run_step s ops s1 l s2)
  then show ?case using h_run.run_step [of s0 "ops1 @ ops" s1 l s2] by simp
qed

lemma heap_of_deref: "deref (mem (heap_of d)) (data (heap_of d)) = Some d"
  using map_of_zip_nth [of "[0..<length d]" d] by (simp add: heap_of_def deref_Some_iff)

lemma h_inv_heap_of: "store_ok d \<Longrightarrow> h_inv (heap_of d)"
proof -
  assume "store_ok d"
  moreover have "set [0..<length d] \<subseteq> dom (map_of (zip [0..<length d] d))" by simp
  ultimately show ?thesis using heap_of_deref [of d] by (simp add: h_inv_def heap_ok_def heap_of_def)
qed

lemma h_inv_single: "h_inv (heap_of [initialData ! 0])"
proof (rule h_inv_heap_of)
  show "store_ok [initialData ! 0]"
    using store_ok_initialData by (simp add: store_ok_def initialData_def seed_raw_items_def)
qed

text \<open>C8: on the real object graph (records shared between the arrays of successive
  renders, image reads completing at any later point), every run from a freshly created
  store reads, at its end, as the value model \<open>Store.run_ops\<close> applied to exactly the
  operations the run performed, in the order they took effect: no interleaving loses or
  duplicates an update, and the invariant (distinct records, the ledger of every record)
  holds throughout.\<close>

theorem heap_runs_refine_store:
  assumes "store_ok d0" and "h_run (heap_of d0) ops s"
  shows "h_inv s \<and> deref (mem s) (data s) = Some (run_ops d0 ops) \<and> store_ok (run_ops d0 ops)"
  using h_run_sim [OF assms(2) h_inv_heap_of [OF assms(1)] heap_of_deref] run_ops_store_ok [OF assms(1)]
  by blast

lemma store_ok_single: "store_ok [initialData ! 0]"
  using store_ok_initialData by (simp add: store_ok_def initialData_def seed_raw_items_def)

theorem heap_runs_refine_store_witness:
  "h_inv ((heap_of [initialData ! 0])\<lparr>mem := [0 \<mapsto> (stock_in_item (initialData ! 0) 5 ''t'')\<lparr>image := Some ''a''\<rparr>]\<rparr>) \<and>
   deref [0 \<mapsto> (stock_in_item (initialData ! 0) 5 ''t'')\<lparr>image := Some ''a''\<rparr>] [0] =
     Some (run_ops [initialData ! 0] [StockIn 0 (Some ''5'') ''t'', ImageUpload 0 (Some ''a'')]) \<and>
   store_ok (run_ops [initialData ! 0] [StockIn 0 (Some ''5'') ''t'', ImageUpload 0 (Some ''a'')])"
proof -
  let ?x = "initialData ! 0"
  let ?y = "stock_in_item ?x 5 ''t''"
  let ?S0 = "heap_of [?x]"
  let ?S1 = "?S0\<lparr>pending := [([0], 0, ''a'')]\<rparr>"
  let ?S2 = "?S1\<lparr>data := [0], mem := [0 \<mapsto> ?y]\<rparr>"
  let ?S3 = "?S2\<lparr>data := [0], mem := [0 \<mapsto> ?y\<lparr>image := Some ''a''\<rparr>], pending := []\<rparr>"
  have st1: "h_step ?S0 [] ?S1"
    using h_step.image_start [of ?S0 0 "Some ''a''" "([0], 0, ''a'')"]
    by (simp add: handleImageUpload_h_def heap_of_def)
  have st2: "h_step ?S1 [StockIn 0 (Some ''5'') ''t''] ?S2"
    using h_step.stock_in [of ?S1 0 "Some ''5''" "''t''" "[0]" "[0 \<mapsto> ?y]"]
    by (simp add: handleStockIn_h_def heap_of_def record_at_def read_qty_5)
  have st3: "h_step ?S2 [ImageUpload 0 (Some ''a'')] ?S3"
    using h_step.image_load [of ?S2 "[]" "[0]" 0 "''a''" "[]" "[0]" "[0 \<mapsto> ?y\<lparr>image := Some ''a''\<rparr>]"]
    by (simp add: image_onload_h_def record_at_def)
  have "h_run ?S0 ((([] @ []) @ [StockIn 0 (Some ''5'') ''t'']) @ [ImageUpload 0 (Some ''a'')]) ?S3"
    by (rule h_run.run_step [OF h_run.run_step [OF h_run.run_step [OF h_run.run_nil st1] st2] st3])
  then have "h_run ?S0 [StockIn 0 (Some ''5'') ''t'', ImageUpload 0 (Some ''a'')]
      ((heap_of [?x])\<lparr>mem := [0 \<mapsto> ?y\<lparr>image := Some ''a''\<rparr>]\<rparr>)"
    by (simp add: heap_of_def)
  from heap_runs_refine_store [OF store_ok_single this] show ?thesis
    by (simp add: heap_of_def)
qed

text \<open>C18: an image read that starts before a stock-in and completes after it keeps
  the stock-in: the \<open>onload\<close> callback works on the array of the render in which the
  upload started, but that array holds the same record objects, so the result is the
  stock-in followed by the image upload of the value model.\<close>

theorem late_onload_keeps_stock_move:
  assumes "h_inv s" and "deref (mem s) (data s) = Some d"
    and "handleImageUpload_h (data s) i (Some r) = Inr p"
    and "handleStockIn_h (data s) (mem s) j a now = Inr (arr_in, h_in)"
    and "image_onload_h p h_in = Inr (arr_img, h_img)"
  shows "\<exists>d1 d2. handleStockIn d j a now = Inr d1 \<and> handleImageUpload d1 i (Some r) = Inr d2 \<and>
    deref h_img arr_img = Some d2"
proof -
  have ok: "heap_ok (mem s) (data s)" using assms(1) by (auto elim: h_invD)
  obtain d1 where a1: "arr_in = data s" and ok1: "heap_ok h_in (data s)"
    and s1: "handleStockIn d j a now = Inr d1" and d1: "deref h_in (data s) = Some d1"
    using writes_one_Inr [OF handleStockIn_h_writes_one [OF assms(2)] assms(4) ok assms(2)] by auto
  have p: "p = (data s, i, r)" using assms(3) by (simp add: handleImageUpload_h_def)
  obtain d2 where "arr_img = data s" and "handleImageUpload d1 i (Some r) = Inr d2"
    and "deref h_img (data s) = Some d2"
    using writes_one_Inr [OF image_onload_h_writes_one [OF d1] assms(5) [unfolded p] ok1 d1] by auto
  with s1 show ?thesis by auto
qed

theorem late_onload_keeps_stock_move_witness:
  "\<exists>d1 d2. handleStockIn [initialData ! 0] 0 (Some ''5'') ''t'' = Inr d1 \<and>
     handleImageUpload d1 0 (Some ''a'') = Inr d2 \<and>
     deref ((map_of (zip [0] [initialData ! 0]))
       (0 \<mapsto> (stock_in_item (initialData ! 0) 5 ''t'')\<lparr>image := Some ''a''\<rparr>)) [0] = Some d2"
proof -
  let ?h_in = "(map_of (zip [0] [initialData ! 0]))(0 \<mapsto> stock_in_item (initialData ! 0) 5 ''t'')"
  have "\<exists>d1 d2. handleStockIn [initialData ! 0] 0 (Some ''5'') ''t'' = Inr d1 \<and>
     handleImageUpload d1 0 (Some ''a'') = Inr d2 \<and>
     deref (?h_in(0 \<mapsto> (stock_in_item (initialData ! 0) 5 ''t'')\<lparr>image := Some ''a''\<rparr>)) [0] = Some d2"
  proof (rule late_onload_keeps_stock_move [where s = "heap_of [initialData ! 0]" and p = "([0], 0, ''a'')"
      and arr_in = "[0]" and h_in = ?h_in and arr_img = "[0]"])
    show "h_inv (heap_of [initialData ! 0])" by (rule h_inv_single)
    show "deref (mem (heap_of [initialData ! 0])) (data (heap_of [initialData ! 0])) = Some [initialData ! 0]"
      by (rule heap_of_deref)
    show "handleImageUpload_h (data (heap_of [initialData ! 0])) 0 (Some ''a'') = Inr ([0], 0, ''a'')"
      by (simp add: handleImageUpload_h_def heap_of_def)
    show "handleStockIn_h (data (heap_of [initialData ! 0])) (mem (heap_of [initialData ! 0])) 0 (Some ''5'') ''t'' =
        Inr ([0], ?h_in)"
      by (simp add: handleStockIn_h_def heap_of_def record_at_def read_qty_5)
    show "image_onload_h ([0], 0, ''a'') ?h_in =
        Inr ([0], ?h_in(0 \<mapsto> (stock_in_item (initialData ! 0) 5 ''t'')\<lparr>image := Some ''a''\<rparr>))"
      by (simp add: image_onload_h_def record_at_def)
  qed
  then show ?thesis by simp
qed

text \<open>C23: \<open>[...inventoryData]\<close> copies only the array, so a stock-in writes into the
  record objects of the previous state: the array of the previous render holds the same
  references as the new one and no longer reads as the state it stood for.\<close>

theorem handler_mutates_previous_state:
  assumes "heap_ok h arr" and "deref h arr = Some d"
    and "handleStockIn_h arr h i a now = Inr (arr', h')"
  shows "arr' = arr \<and> (\<exists>d'. handleStockIn d i a now = Inr d' \<and> deref h' arr = Some d' \<and> d' \<noteq> d)"
proof -
  obtain d' where "arr' = arr" and s1: "handleStockIn d i a now = Inr d'" and "deref h' arr = Some d'"
    using writes_one_Inr [OF handleStockIn_h_writes_one [OF assms(2)] assms(3) assms(1) assms(2)] by auto
  moreover have "d' \<noteq> d"
  proof -
    from s1 obtain q where rq: "read_qty a = Some q"
      by (auto simp: handleStockIn_cases split: option.splits)
    with s1 have "0 < q" and "i < length d" and "d' = d[i := stock_in_item (d ! i) q now]"
      by (auto simp: handleStockIn_cases split: if_splits)
    then have "inventoryQty (d' ! i) = inventoryQty (d ! i) + q" by (simp add: store_simps)
    with \<open>0 < q\<close> show ?thesis by auto
  qed
  ultimately show ?thesis by blast
qed

theorem handler_mutates_previous_state_witness:
  "[0::nat] = [0] \<and> (\<exists>d'. handleStockIn [initialData ! 0] 0 (Some ''5'') ''t'' = Inr d' \<and>
     deref ((map_of (zip [0] [initialData ! 0]))(0 \<mapsto> stock_in_item (initialData ! 0) 5 ''t'')) [0] = Some d' \<and>
     d' \<noteq> [initialData ! 0])"
proof (rule handler_mutates_previous_state)
  show "heap_ok (map_of (zip [0] [initialData ! 0])) [0]" by (simp add: heap_ok_def)
  show "deref (map_of (zip [0] [initialData ! 0])) [0] = Some [initialData ! 0]" by (simp add: deref_def)
  show "handleStockIn_h [0] (map_of (zip [0] [initialData ! 0])) 0 (Some ''5'') ''t'' =
      Inr ([0], (map_of (zip [0] [initialData ! 0]))(0 \<mapsto> stock_in_item (initialData ! 0) 5 ''t''))"
    by (simp add: handleStockIn_h_def record_at_def read_qty_5)
qed

lemma image_onload_h_data: "image_onload_h (arr0, i, r) h = Inr (arr', h') \<Longrightarrow> arr' = arr0"
  by (auto simp: image_onload_h_def split: option.splits)

text \<open>Progress: any pending read can complete, with a record written or with the
  exception of a bad index; either way it performs its operation.\<close>

lemma read_completes:
  assumes "h_inv s" and "pending s = ps1 @ p # ps2"
  obtains s1 where "h_step s [read_op p] s1" and "pending s1 = ps1 @ ps2"
proof -
  obtain arr0 i r where p: "p = (arr0, i, r)" by (cases p) auto
  have split: "pending s = ps1 @ (arr0, i, r) # ps2" using assms(2) p by simp
  have rp: "read_op p = ImageUpload i (Some r)" by (simp add: p read_op_def)
  show ?thesis
  proof (cases "image_onload_h (arr0, i, r) (mem s)")
    case (Inl e)
    show ?thesis
      by (rule that [of "s\<lparr>pending := ps1 @ ps2\<rparr>"]) (use h_step.image_load_fails [OF split Inl] rp in simp_all)
  next
    case (Inr res)
    then obtain arr' h' where ld: "image_onload_h (arr0, i, r) (mem s) = Inr (arr', h')" by (cases res) auto
    show ?thesis
      by (rule that [of "s\<lparr>data := arr', mem := h', pending := ps1 @ ps2\<rparr>"]) (use h_step.image_load [OF split ld] rp in simp_all)
  qed
qed

text \<open>The reads \<open>qs\<close> in the middle of the pending list complete one after the other,
  performing their operations in that order.\<close>

lemma drain_reads:
  "h_inv s \<Longrightarrow> pending s = pre @ qs @ rest \<Longrightarrow>
   \<exists>s'. h_run s (map read_op qs) s' \<and> pending s' = pre @ rest \<and> h_inv s' \<and> data s' = data s"
proof (induction qs arbitrary: s)
  case Nil
  then show ?case by (auto intro: h_run.run_nil)
next
  case (Cons q qs)
  obtain s1 where st: "h_step s [read_op q] s1" and p1: "pending s1 = pre @ qs @ rest"
    using read_completes [OF Cons.prems(1), of pre q "qs @ rest"] Cons.prems(2) by auto
  obtain d where "deref (mem s) (data s) = Some d" using Cons.prems(1) by (auto elim: h_invD)
  with h_step_sim [OF Cons.prems(1) st] have inv1: "h_inv s1" and d1: "data s1 = data s" by auto
  from Cons.IH [OF inv1 p1] obtain s' where r: "h_run s1 (map read_op qs) s'"
    and "pending s' = pre @ rest" "h_inv s'" "data s' = data s1" by blast
  moreover have "h_run s ([read_op q] @ map read_op qs) s'"
    by (rule h_run_trans [OF r h_run_single [OF st]])
  ultimately show ?case using d1 by auto
qed

lemma run_ops_image_last:
  "i < length d \<Longrightarrow> image (run_ops d [ImageUpload i (Some r)] ! i) = Some r"
  by (simp add: apply_op_def handleImageUpload_def)

text \<open>C31: every image read in flight completes, and the one the user cares about can
  be the one that lands: from any state of the invariant and any pending read of a record
  of the array, some run completes every pending read, each performing its image upload
  exactly once, keeps the invariant and the array, and ends with that read's data URL on
  its record.\<close>

theorem pending_reads_complete:
  assumes "h_inv s" and "(arr0, i, r) \<in> set (pending s)" and "i < length (data s)"
  shows "\<exists>ops s' d'. h_run s ops s' \<and> mset ops = mset (map read_op (pending s)) \<and>
    pending s' = [] \<and> h_inv s' \<and> data s' = data s \<and>
    deref (mem s') (data s') = Some d' \<and> image (d' ! i) = Some r"
proof -
  obtain ps1 ps2 where ps: "pending s = ps1 @ (arr0, i, r) # ps2"
    using split_list [OF assms(2)] by blast
  obtain s2 where r2: "h_run s (map read_op ps1) s2" and p2: "pending s2 = [] @ [(arr0, i, r)] @ ps2"
    and inv2: "h_inv s2" and d2: "data s2 = data s"
    using drain_reads [OF assms(1), of "[]" ps1 "(arr0, i, r) # ps2"] ps by auto
  obtain s3 where r3: "h_run s2 (map read_op ps2) s3" and p3: "pending s3 = [] @ (arr0, i, r) # []"
    and inv3: "h_inv s3" and d3: "data s3 = data s"
    using drain_reads [OF inv2, of "[(arr0, i, r)]" ps2 "[]"] p2 d2 by auto
  obtain s4 where st4: "h_step s3 [ImageUpload i (Some r)] s4" and p4: "pending s4 = []"
    using read_completes [OF inv3 p3] by (auto simp: read_op_def)
  obtain e3 where e3: "deref (mem s3) (data s3) = Some e3" using inv3 by (auto elim: h_invD)
  with assms(3) d3 have "i < length e3" by (simp add: deref_Some_iff)
  with h_step_sim [OF inv3 st4 e3] d3 run_ops_image_last [of i e3 r]
  have "h_inv s4 \<and> data s4 = data s \<and> deref (mem s4) (data s4) = Some (run_ops e3 [ImageUpload i (Some r)]) \<and>
      image (run_ops e3 [ImageUpload i (Some r)] ! i) = Some r" by auto
  moreover have "h_run s (map read_op ps1 @ map read_op ps2 @ [ImageUpload i (Some r)]) s4"
    using h_run_trans [OF h_run_trans [OF h_run_single [OF st4] r3] r2] by simp
  moreover have "mset (map read_op ps1 @ map read_op ps2 @ [ImageUpload i (Some r)]) =
      mset (map read_op (pending s))"
    by (simp add: ps read_op_def)
  ultimately show ?thesis using p4 by blast
qed

theorem pending_reads_complete_witness:
  "\<exists>ops s' d'. h_run ((heap_of [initialData ! 0])\<lparr>pending := [([0], 0, ''a''), ([0], 3, ''b''), ([0], 0, ''c'')]\<rparr>) ops s' \<and>
     mset ops = mset [ImageUpload 0 (Some ''a''), ImageUpload 3 (Some ''b''), ImageUpload 0 (Some ''c'')] \<and>
     pending s' = [] \<and> h_inv s' \<and> data s' = [0] \<and>
     deref (mem s') (data s') = Some d' \<and> image (d' ! 0) = Some ''a''"
proof -
  let ?s = "(heap_of [initialData ! 0])\<lparr>pending := [([0], 0, ''a''), ([0], 3, ''b''), ([0], 0, ''c'')]\<rparr>"
  have "h_inv ?s" using h_inv_single by (simp add: h_inv_def heap_of_def)
  from pending_reads_complete [OF this, of "[0]" 0 "''a''"] show ?thesis
    by (simp add: heap_of_def read_op_def)
qed

end
