(* ===== verification/View.thy ===== *)
theory View
  imports Aggregate Query AppLifecycle
begin

text \<open>
  What \<open>App\<close> renders (\<open>src/App.jsx\<close> lines 164--215): a heading, three dashboard
  cards (lines 168--179), the search box and the two selects bound to the filter cells
  (lines 182--204), and the export button (lines 207--212). \<open>render\<close> maps a state of
  the component to a \<open>view\<close> record holding the text and the values the user sees. A
  number in JSX text is printed by \<open>Number::toString\<close>; \<open>totalStock.toLocaleString()\<close>
  groups digits by threes with the separator of the browser's locale (a parameter:
  \<open>,\<close> for \<open>en-US\<close>, \<open>.\<close> for \<open>id-ID\<close>). An \<open><option>\<close> written without a \<open>value\<close>
  attribute (lines 195, 203) has as value its text with ASCII white space stripped and
  collapsed (HTML, the \<open>value\<close> of \<open>HTMLOptionElement\<close>); that is the string the
  \<open>onChange\<close> handlers receive as \<open>e.target.value\<close>.
\<close>

definition html_ws :: "char \<Rightarrow> bool" where
  "html_ws c \<longleftrightarrow> c \<in> set [CHR 0x09, CHR 0x0A, CHR 0x0C, CHR 0x0D, CHR 0x20]"

fun collapse_ws :: "bool \<Rightarrow> js_string \<Rightarrow> js_string" where
  "collapse_ws gap [] = []"
| "collapse_ws gap (c # cs) =
     (if html_ws c then collapse_ws True cs
      else (if gap then [CHR 0x20] else []) @ c # collapse_ws False cs)"

definition option_value :: "js_string \<Rightarrow> js_string" where
  "option_value text = collapse_ws False (dropWhile html_ws text)"

fun group_digits :: "char \<Rightarrow> js_string \<Rightarrow> js_string" where
  "group_digits sep ds =
     (if length ds \<le> 3 then ds
      else group_digits sep (take (length ds - 3) ds) @ sep # drop (length ds - 3) ds)"

definition js_toLocaleString :: "char \<Rightarrow> js_int \<Rightarrow> js_string" where
  "js_toLocaleString sep n =
     (if n < 0 then CHR ''-'' # group_digits sep (nat_to_digits (nat (- n)))
      else group_digits sep (nat_to_digits (nat n)))"

record select_view =
  sel_value :: js_string
  sel_options :: "(js_string \<times> js_string) list"

record view =
  heading :: js_string
  cards :: "(js_string \<times> js_string) list"
  search_box :: js_string
  warehouse_select :: select_view
  grouping_select :: select_view
  export_button :: js_string

definition option_of :: "js_string \<Rightarrow> js_string \<times> js_string" where
  "option_of text = (option_value text, text)"

definition render :: "char \<Rightarrow> app_state \<Rightarrow> view" where
  "render sep st =
     (let d = inventoryData st in
      \<lparr>heading = ''Aplikasi Inventaris'',
       cards = [(''Jumlah Item'', js_number_to_string (int (totalItems d))),
                (''Total Stok'', js_toLocaleString sep (totalStock d)),
                (''Stok < 10%'', js_number_to_string (int (lowStockCount d)))],
       search_box = searchTerm st,
       warehouse_select = \<lparr>sel_value = filterWarehouse st,
         sel_options = ([], ''Semua Gudang'') # map option_of (warehouseOptions d)\<rparr>,
       grouping_select = \<lparr>sel_value = filterGrouping st,
         sel_options = ([], ''Semua Kategori'') # map option_of (groupingOptions d)\<rparr>,
       export_button = ''Export ke Excel''\<rparr>)"

text \<open>Choosing the \<open>k\<close>-th option of a select fires its \<open>onChange\<close> with that option's
  value.\<close>

definition choose_warehouse :: "view \<Rightarrow> nat \<Rightarrow> ui_event option" where
  "choose_warehouse v k =
     (let opts = sel_options (warehouse_select v) in
      if k < length opts then Some (SetWarehouse (fst (opts ! k))) else None)"

definition choose_grouping :: "view \<Rightarrow> nat \<Rightarrow> ui_event option" where
  "choose_grouping v k =
     (let opts = sel_options (grouping_select v) in
      if k < length opts then Some (SetGrouping (fst (opts ! k))) else None)"

lemma option_of_in_render:
  "w \<in> set (warehouseOptions (inventoryData st)) \<Longrightarrow>
   (option_value w, w) \<in> set (sel_options (warehouse_select (render sep st)))"
  by (auto simp: render_def option_of_def Let_def)

lemma filteredData_warehouse_only:
  "v \<noteq> [] \<Longrightarrow> filteredData [] v [] d = filter (\<lambda>it. warehouseName it = v) d"
  by (simp add: filteredData_def matchesSearch_def matchesWarehouse_def matchesGrouping_def
      js_toLowerCase_def)

lemma filteredData_warehouse_excludes:
  "v \<noteq> [] \<Longrightarrow> v \<noteq> w \<Longrightarrow> filter (\<lambda>it. warehouseName it = w) (filteredData s v g d) = []"
  by (induction d) (auto simp: filteredData_def matchesWarehouse_def)

text \<open>C32: choosing a warehouse in the rendered select filters by the option's value,
  the whitespace-normalised name, not by the name itself: the records of a warehouse
  whose name has leading, trailing or repeated white space are never shown once their
  own option is chosen, whatever the search and category.\<close>

theorem warehouse_choice_filters:
  assumes "w \<in> set (warehouseOptions (inventoryData st))" and "option_value w \<noteq> []"
  shows "(option_value w, w) \<in> set (sel_options (warehouse_select (render sep st))) \<and>
    filteredData [] (option_value w) [] (inventoryData st) =
      filter (\<lambda>it. warehouseName it = option_value w) (inventoryData st) \<and>
    (option_value w \<noteq> w \<longrightarrow>
       filter (\<lambda>it. warehouseName it = w) (filteredData s (option_value w) g (inventoryData st)) = [])"
  using option_of_in_render [OF assms(1)] filteredData_warehouse_only [OF assms(2)]
    filteredData_warehouse_excludes [OF assms(2)] by blast

theorem warehouse_choice_filters_witness:
  "(''A B'', ''A  B'') \<in> set (sel_options (warehouse_select
      (render CHR '','' (initial_state\<lparr>inventoryData := [(initialData ! 0)\<lparr>warehouseName := ''A  B''\<rparr>]\<rparr>)))) \<and>
   filteredData [] ''A B'' [] [(initialData ! 0)\<lparr>warehouseName := ''A  B''\<rparr>] =
     filter (\<lambda>it. warehouseName it = ''A B'') [(initialData ! 0)\<lparr>warehouseName := ''A  B''\<rparr>] \<and>
   ''A B'' \<noteq> ''A  B'' \<and>
   filter (\<lambda>it. warehouseName it = ''A  B'') (filteredData [] ''A B'' [] [(initialData ! 0)\<lparr>warehouseName := ''A  B''\<rparr>]) = []"
proof -
  let ?st = "initial_state\<lparr>inventoryData := [(initialData ! 0)\<lparr>warehouseName := ''A  B''\<rparr>]\<rparr>"
  have ov: "option_value ''A  B'' = ''A B''" by code_simp
  have w: "''A  B'' \<in> set (warehouseOptions (inventoryData ?st))"
    by (simp add: warehouseOptions_def js_Set_spread_remdups)
  show ?thesis
    using warehouse_choice_filters [where w = "''A  B''" and st = ?st and sep = "CHR '',''" and s = "[]" and g = "[]"]
      w ov by simp
qed

end
