(* ===== verification/Spec2Isabelle.thy ===== *)
theory Spec2Isabelle
  imports Aggregate Query Export AppLifecycle Heap View
begin

text \<open>
  \<^bold>\<open>Verification of App_Inventory.\<close> The repository is one React component,
  \<open>App\<close> in \<open>src/App.jsx\<close>. It keeps an array \<open>inventoryData\<close> of inventory records
  in React state, seeds it (or restores it from \<open>localStorage\<close>) on mount, saves it
  back on every change, derives dashboard figures, facet options and a filtered view
  from it on every render, changes it through three handlers (stock in, stock out, image
  upload) and exports it to a spreadsheet. This development models the data, the
  handlers, the derivations and the export, as a library of theories:

  \<^item> \<open>Prelude\<close>: the types standing for JavaScript values (\<open>js_string\<close>,
    \<open>js_int\<close>), the collections \<open>store_simps\<close> and \<open>js_simps\<close>, and list lemmas
    shared by the components (sums and counts over a list updated at one index, the
    \<open>reduce\<close> fold as a sum).
  \<^item> \<open>Item\<close>: the record object as the records \<open>raw_item\<close> (the nineteen fields
    of the seed literal, lines 16--35) and \<open>item\<close> (extended by \<open>initialQty\<close>, the
    spread of line 79, \<open>with_initialQty\<close>), the ledger entry \<open>ledger_entry\<close> with
    \<open>txn_type = IN | OUT\<close>, the seed array \<open>initialData\<close> (lines 15--79), and the
    specification's reading of a record: \<open>ledger_sum\<close> (signed sum of the history),
    \<open>ledger_consistent\<close>, \<open>item_ok\<close> and \<open>store_ok\<close> (the invariant: the quantity is
    the initial quantity plus the ledger, it is non-negative, every entry is positive).
  \<^item> \<open>JsLib\<close>: the built-ins whose semantics the claims depend on, from the
    ECMAScript definitions: \<open>js_parseInt\<close> (white space, sign, \<open>0x\<close> prefix, longest
    digit prefix, \<open>NaN\<close> as \<open>None\<close>), \<open>js_number_to_string\<close>, \<open>js_toLowerCase\<close>,
    \<open>js_includes\<close>, \<open>js_Set_spread\<close> (\<open>[...new Set(xs)]\<close>) and \<open>js_mul_tenth\<close>
    (\<open>x * 0.1\<close>). Lemmas used by the components: \<open>parseInt\<close> reads back a printed
    integer followed by non-digits, \<open>includes\<close> is \<open>sublist\<close>, the Set spread is
    \<open>rev (remdups (rev xs))\<close>, and the comparisons with a tenth in integers.
  \<^item> \<open>Store\<close>: \<open>handleStockIn\<close> (lines 104--111), \<open>handleStockOut\<close> (113--121) and
    \<open>handleImageUpload\<close> (152--162) as functions from the current array, the index and
    what the environment supplies (the prompt's answer or \<open>null\<close>, the time stamp, the
    data URL) to \<open>store_error + item list\<close>: \<open>Inl\<close> is the alert
    (\<open>InvalidQuantity\<close>, \<open>InsufficientStock\<close>) or the \<open>TypeError\<close> thrown on an
    index past the array, \<open>Inr\<close> the array given to \<open>setInventoryData\<close>. The guards
    are the source's, in its order. A user session is a list of \<open>store_op\<close>s run by
    \<open>run_ops\<close>, a failed action leaving the array as it was. Lemmas: every branch of each
    handler (\<open>handleStockIn_cases\<close>, \<open>handler_Inr\<close>), the invariant kept by every
    step and every run, the frame of a step.
  \<^item> \<open>Aggregate\<close>: \<open>warehouseOptions\<close>, \<open>groupingOptions\<close>, \<open>totalItems\<close>,
    \<open>totalStock\<close>, \<open>is_low_stock\<close>, \<open>lowStockCount\<close> (lines 88--93), with their
    relation to the stock moves.
  \<^item> \<open>Query\<close>: \<open>matchesSearch\<close>, \<open>matchesWarehouse\<close>, \<open>matchesGrouping\<close> and
    \<open>filteredData\<close> (lines 95--102).
  \<^item> \<open>Export\<close>: \<open>handleExportExcel\<close> (lines 123--150): \<open>export_row\<close>,
    \<open>export_sheet\<close> and \<open>safety_stock\<close>, the row objects handed to the spreadsheet
    library, then the workbook (\<open>book_new\<close>, \<open>book_append_sheet\<close> with the library's
    sheet-name checks, the export's only error path) and the \<open>writeFile\<close> request.
    The sheet-name checks are the library's: at most 31 characters, none of
    \<open>: \ / ? * [ ]\<close>, no apostrophe at either end, new in the workbook; an empty name
    becomes the first free \<open>Sheet<n>\<close>. Claim: the safety stock bounds.
  \<^item> \<open>Json\<close>: \<open>JSON.stringify\<close> (\<open>json_stringify\<close>, with \<open>json_quote\<close>) and
    \<open>JSON.parse\<close> (\<open>JSON_parse\<close>, a recursive-descent parser \<open>parse_value\<close> /
    \<open>parse_elems\<close> / \<open>parse_members\<close> whose termination is proved by a measure) on
    the JSON values a snapshot holds. It restricts \<open>JSON.parse\<close>: fractions,
    exponents and \<open>\u\<close> escapes at or above 256 are rejected as syntax errors (no
    snapshot contains them), and \<open>JSON.stringify\<close> prints integers in decimal, which
    the engine does below \<open>1e21\<close>. Lemmas: parsing what was printed gives the value
    back; a text whose first non-blank character cannot start a value is rejected.
  \<^item> \<open>Snapshot\<close>: \<open>snapshot\<close>, the string the save effect writes (line 85), built from
    \<open>item_to_json\<close>; \<open>restore_items\<close>, the reading of a parsed value as records (line
    13), in the option monad. Claim: the snapshot round trip.
  \<^item> \<open>AppLifecycle\<close>: the component as React runs it. \<open>app_state\<close> is the four
    \<open>useState\<close> cells (lines 5--8); a \<open>runtime\<close> adds the queue of updates not yet
    rendered and the \<open>localStorage\<close> slot with its quota. Effects and handlers are steps
    \<open>runtime \<Rightarrow> app_error + runtime\<close> (\<open>Inl\<close>: an exception nothing catches):
    \<open>load_effect\<close> (lines 10--82), \<open>save_effect\<close> (84--86), \<open>rerender\<close> (the
    commit), run in React's order by \<open>mount\<close> and, for StrictMode, \<open>strict_mount\<close>;
    \<open>dispatch\<close> runs one user event (a filter input, or a \<open>Store\<close> action followed by
    the commit and the save) and \<open>run_session\<close> a list of them. Lemmas: the
    persistence invariant \<open>persisted\<close> (storage = snapshot of memory, nothing pending,
    within quota) holds after mount and every event, and the data in memory follows
    \<open>Store.run_ops\<close> on the actions of the session (a refinement of the running
    component to the abstract store, \<open>run_session_data\<close>). Claims: reload restores the
    snapshot, write-through, the ledger invariant from a first visit, the seeding of a
    first visit, and four failure modes (the first save of a mount writes \<open>"[]"\<close>,
    StrictMode wipes the saved store, a save over quota crashes, a saved value whose
    first non-blank character cannot start JSON crashes the mount).
  \<^item> \<open>Heap\<close>: the handlers on the object graph. A record is an object at an
    address of a \<open>heap\<close>, \<open>inventoryData\<close> an array of addresses, and
    \<open>[...inventoryData]\<close> copies the addresses, so \<open>handleStockIn_h\<close>,
    \<open>handleStockOut_h\<close> and \<open>image_onload_h\<close> write into records shared with the
    previous state. \<open>handleImageUpload_h\<close> only starts the read; its \<open>onload\<close> is a
    pending closure over the array of its render. The inductive relation \<open>h_step\<close>
    interleaves stock moves (done or refused), read starts and read completions (done, or
    throwing on a bad index) in any order; each step is labelled with the
    \<open>Store.store_op\<close>s it performs (an image upload is performed when its \<open>onload\<close>
    runs, a read start performs nothing), and \<open>h_run\<close> collects the labels of a run in
    order. Lemmas: each handler on the heap is the value handler read through
    \<open>deref\<close> (a functional refinement); \<open>h_step\<close> keeps the invariant \<open>h_inv\<close>
    (distinct records, every pending closure holds the current array, ledger invariant)
    and performs exactly its label on the value model; \<open>h_run\<close> likewise, by rule
    induction. Claims: every run from a fresh store reads as \<open>Store.run_ops\<close> of
    exactly its labels; a late \<open>onload\<close> keeps an intervening stock-in; a handler
    mutates the previous state; every pending read completes, each performing its upload
    once, and any chosen read on a record of the array can be the last to land
    (liveness, by induction on the pending reads with a progress lemma).
  \<^item> \<open>View\<close>: the markup of lines 164--215 as a \<open>view\<close> record computed by
    \<open>render\<close> from the component state: the heading, the three cards (\<open>toString\<close>
    and \<open>toLocaleString\<close>, whose digit-group separator is the browser locale's, a
    parameter), the search box, the two selects and the export button. An option
    without a \<open>value\<close> attribute has as value its text with white space stripped and
    collapsed (\<open>option_value\<close>); choosing an option is a \<open>dispatch\<close> event. Claim:
    the warehouse filter compares names with the normalised option value.
  \<^item> This theory: the properties that span components (the dashboard's low-stock
    count against the exported Safety Stock column, and the scenario of the
    specification).

  \<^bold>\<open>Numbers and strings.\<close> JavaScript numbers are doubles; the model uses
  \<open>int\<close>, exact while quantities and sums stay below 2 to the 53, which the store's
  figures do (no claim depends on larger values). \<open>x * 0.1\<close> is read exactly as
  \<open>x / 10\<close>; \<open>JsLib\<close> explains why, for safe integers, the comparisons and the
  \<open>Math.ceil\<close> of the rounded double agree with the exact ones. Strings are sequences
  of UTF-16 code units below 256 (\<open>char\<close>), which covers the seed data (its \<open>\<pm>\<close>
  sign is one such unit) and the Latin-1 case mapping of \<open>toLowerCase\<close>. Every
  definition is total and executable; no loop needs fuel.

  \<^bold>\<open>Storage and JSON.\<close> The quota of \<open>localStorage\<close> is a parameter
  (\<open>quota\<close>, counted in code units of key and value); every claim that needs a save to
  succeed states the bound it needs, and the witnesses choose the quota symbolically
  (e.g. 13 plus the length of the snapshot) so that no snapshot has to be printed by
  the kernel. The parser handles what \<open>JSON.stringify\<close> produces for a store and any
  other JSON text with integer numbers; a parsed value that is not an array of records
  is reported as \<open>UnsupportedShape\<close> and not followed further: the source keeps such
  a value, and then throws in the render (a record without \<open>materialName\<close>, a value
  that is not an array) or computes with \<open>undefined\<close> (a record without
  \<open>initialQty\<close> is never low stock and exports \<open>NaN\<close> as its safety stock).

  \<^bold>\<open>Not modelled.\<close> The styling of the markup (class names); the inside of
  the spreadsheet library (the conversion of rows into cells by \<open>json_to_sheet\<close> and
  the file format), which the source only calls; the \<open>FileReader\<close>'s encoding of the
  file (the data URL is a parameter) and its error event (the source sets no
  \<open>onerror\<close>, so a failed read simply never calls \<open>onload\<close>; the model's reads
  all succeed). \<open>Store\<close> and \<open>AppLifecycle\<close> take the image
  callback to run with its handler and give each state its own record values;
  \<open>Heap\<close> drops both simplifications for the handlers and shows that they do not
  change what the state reads as. The life cycle and the heap are separate views: the
  save effect serialises the values the heap reads as. The rendered view omits the
  filtered records and every control of the stock and image handlers because the
  markup has none.
\<close>

definition scenario_store :: "item list" where
  "scenario_store =
     [with_initialQty ((seed_raw_items ! 0)\<lparr>materialCode := ''A1'', inventoryQty := 100\<rparr>)]"

lemma is_low_stock_safety_stock:
  "is_low_stock it \<longleftrightarrow> inventoryQty it < safety_stock (initialQty it)"
  unfolding is_low_stock_def safety_stock_def by (rule less_mul_tenth_ceiling)

text \<open>C16: the dashboard's low-stock count is the number of exported rows whose
  Inventory Qty is below their Safety Stock (10%) cell.\<close>

theorem low_stock_matches_export:
  "lowStockCount d =
     length (filter (\<lambda>row. \<exists>a b. map_of row ''Inventory Qty'' = Some (CNum a) \<and>
        map_of row ''Safety Stock (10%)'' = Some (CNum b) \<and> a < b) (export_sheet d))"
proof -
  have "(\<lambda>row. \<exists>a b. map_of row ''Inventory Qty'' = Some (CNum a) \<and>
        map_of row ''Safety Stock (10%)'' = Some (CNum b) \<and> a < b) \<circ> export_row = is_low_stock"
    by (simp add: fun_eq_iff is_low_stock_safety_stock)
  then show ?thesis by (simp add: lowStockCount_def export_sheet_def filter_map)
qed

text \<open>C17: the scenario of the specification: a record A1 seeded with 100 units;
  stock-out 95 leaves 5, which is low stock (5 < 10); a stock-out of 10 is refused for
  insufficient stock and the quantity stays 5; a stock-in of 20 gives 25, and the
  ledger reads OUT 95 then IN 20; the exported safety stock is 10.\<close>

theorem spec_scenario:
  "\<exists>d1 d2. handleStockOut scenario_store 0 (Some ''95'') ''t1'' = Inr d1 \<and>
     inventoryQty (d1 ! 0) = 5 \<and> lowStockCount d1 = 1 \<and>
     handleStockOut d1 0 (Some ''10'') ''t2'' = Inl InsufficientStock \<and>
     handleStockIn d1 0 (Some ''20'') ''t3'' = Inr d2 \<and> inventoryQty (d2 ! 0) = 25 \<and>
     map (\<lambda>e. (type e, qty e)) (history (d2 ! 0)) = [(OUT, 95), (IN, 20)] \<and>
     lowStockCount d2 = 0 \<and> safety_stock (initialQty (d2 ! 0)) = 10"
proof -
  have r95: "read_qty (Some ''95'') = Some 95" and r10: "read_qty (Some ''10'') = Some 10"
    and r20: "read_qty (Some ''20'') = Some 20"
    by (simp_all add: read_qty_def js_ToString_def js_simps)
  define d1 where "d1 = scenario_store[0 := stock_out_item (scenario_store ! 0) 95 ''t1'']"
  define d2 where "d2 = d1[0 := stock_in_item (d1 ! 0) 20 ''t3'']"
  have a0: "inventoryQty (scenario_store ! 0) = 100" "initialQty (scenario_store ! 0) = 100"
    "history (scenario_store ! 0) = []" "length scenario_store = 1"
    by (simp_all add: scenario_store_def seed_raw_items_def)
  have h1: "handleStockOut scenario_store 0 (Some ''95'') ''t1'' = Inr d1"
    using r95 a0 by (simp add: handleStockOut_cases d1_def)
  have q1: "inventoryQty (d1 ! 0) = 5" "initialQty (d1 ! 0) = 100" "length d1 = 1"
    using a0 by (simp_all add: d1_def store_simps)
  have h2: "handleStockOut d1 0 (Some ''10'') ''t2'' = Inl InsufficientStock"
    using r10 q1 by (simp add: handleStockOut_cases)
  have h3: "handleStockIn d1 0 (Some ''20'') ''t3'' = Inr d2"
    using r20 q1 by (simp add: handleStockIn_cases d2_def)
  have q2: "inventoryQty (d2 ! 0) = 25" "initialQty (d2 ! 0) = 100"
    using q1 by (simp_all add: d2_def store_simps)
  have hist: "map (\<lambda>e. (type e, qty e)) (history (d2 ! 0)) = [(OUT, 95), (IN, 20)]"
    using a0 q1 by (simp add: d2_def d1_def store_simps)
  have d1l: "d1 = [d1 ! 0]" using q1(3) by (cases d1) auto
  have "length d2 = 1" using q1(3) by (simp add: d2_def)
  then have d2l: "d2 = [d2 ! 0]" by (cases d2) auto
  have l1: "lowStockCount d1 = 1"
    using q1 by (subst d1l) (simp add: lowStockCount_def is_low_stock_int)
  have l2: "lowStockCount d2 = 0"
    using q2 by (subst d2l) (simp add: lowStockCount_def is_low_stock_int)
  have s: "safety_stock (initialQty (d2 ! 0)) = 10"
    using q2 by (simp add: safety_stock_def ceiling_mul_tenth)
  show ?thesis
  proof (intro exI conjI)
    show "handleStockOut scenario_store 0 (Some ''95'') ''t1'' = Inr d1" by (fact h1)
    show "handleStockIn d1 0 (Some ''20'') ''t3'' = Inr d2" by (fact h3)
  qed (fact q1(1) l1 h2 q2(1) hist l2 s)+
qed

end
